theory Spec2Isabelle
  imports Complex_Main "HOL-Library.Sublist"
begin

section \<open>Strings\<close>

text \<open>
  A JavaScript string is modelled as a \<^typ>\<open>string\<close>, one \<^typ>\<open>char\<close> per UTF-16 code
  unit, restricted to the code units U+0000..U+00FF (Latin-1).  On this range
  \<open>toLowerCase\<close> changes exactly the letters A-Z and U+00C0..U+00DE (without U+00D7),
  \<open>trim\<close> and the regular-expression class \<open>\s\<close> remove exactly the characters of
  \<open>ws_chars\<close>, and \<open>.\<close> excludes exactly line feed and carriage return.
\<close>

definition lower_char :: "char \<Rightarrow> char" where
  "lower_char c =
     (let n = (of_char c :: nat) in
      if (65 \<le> n \<and> n \<le> 90) \<or> (192 \<le> n \<and> n \<le> 222 \<and> n \<noteq> 215)
      then char_of (n + 32) else c)"

definition toLowerCase :: "string \<Rightarrow> string" where
  "toLowerCase s = map lower_char s"

definition ws_chars :: string where
  "ws_chars = [CHR 0x09, CHR 0x0A, CHR 0x0B, CHR 0x0C, CHR 0x0D, CHR 0x20, CHR 0xA0]"

definition is_ws :: "char \<Rightarrow> bool" where
  "is_ws c \<longleftrightarrow> c \<in> set ws_chars"

definition trim :: "string \<Rightarrow> string" where
  "trim s = rev (dropWhile is_ws (rev (dropWhile is_ws s)))"

definition is_digit :: "char \<Rightarrow> bool" where
  "is_digit c \<longleftrightarrow> 48 \<le> (of_char c :: nat) \<and> (of_char c :: nat) \<le> 57"

text \<open>The class \<open>[a-z0-9]\<close>.\<close>

definition is_lower_alnum :: "char \<Rightarrow> bool" where
  "is_lower_alnum c \<longleftrightarrow>
     (let n = (of_char c :: nat) in (97 \<le> n \<and> n \<le> 122) \<or> (48 \<le> n \<and> n \<le> 57))"

definition is_line_terminator :: "char \<Rightarrow> bool" where
  "is_line_terminator c \<longleftrightarrow> c \<in> set [CHR 0x0A, CHR 0x0D]"

definition endsWith :: "string \<Rightarrow> string \<Rightarrow> bool" where
  "endsWith s suf \<longleftrightarrow> length suf \<le> length s \<and> drop (length s - length suf) s = suf"

text \<open>\<open>s.slice(0, -k)\<close>: the string without its last \<open>k\<close> code units.\<close>

definition dropLast :: "nat \<Rightarrow> string \<Rightarrow> string" where
  "dropLast k s = take (length s - k) s"

section \<open>Insertion-ordered sets\<close>

text \<open>
  A JavaScript \<open>Set\<close> iterates in insertion order and ignores a value it already holds:
  a list without duplicates, \<open>add\<close> appending a new value at the end.
\<close>

definition set_add :: "'a \<Rightarrow> 'a list \<Rightarrow> 'a list" where
  "set_add x xs = (if x \<in> set xs then xs else xs @ [x])"

definition set_of_list :: "'a list \<Rightarrow> 'a list" where
  "set_of_list xs = foldl (\<lambda>acc x. set_add x acc) [] xs"

section \<open>Name normalisation and Dice similarity (sqliteMeta.ts, badgeHeuristics.ts)\<close>

text \<open>
  \<open>normalize\<close>: lower-case, drop everything outside \<open>[a-z0-9]\<close>, then three suffix
  rewrites applied one after the other: \<open>ies\<close> to \<open>y\<close>; \<open>sses|xes|zes|ches|shes\<close>
  lose their last two characters; a final \<open>s\<close> is dropped.
\<close>

definition strip_ies :: "string \<Rightarrow> string" where
  "strip_ies t = (if endsWith t ''ies'' then dropLast 3 t @ ''y'' else t)"

definition strip_es :: "string \<Rightarrow> string" where
  "strip_es t =
     (if endsWith t ''sses'' \<or> endsWith t ''xes'' \<or> endsWith t ''zes''
         \<or> endsWith t ''ches'' \<or> endsWith t ''shes''
      then dropLast 2 t else t)"

definition strip_s :: "string \<Rightarrow> string" where
  "strip_s t = (if endsWith t ''s'' then dropLast 1 t else t)"

definition normalize :: "string \<Rightarrow> string" where
  "normalize s = strip_s (strip_es (strip_ies (filter is_lower_alnum (toLowerCase s))))"

text \<open>The slices \<open>s.slice(i, i + 2)\<close> for \<open>i = 0, ..., s.length - 2\<close>, in this order.\<close>

fun slices2 :: "string \<Rightarrow> string list" where
  "slices2 (a # b # cs) = [a, b] # slices2 (b # cs)"
| "slices2 _ = []"

definition bigrams :: "string \<Rightarrow> string list" where
  "bigrams s = (if length s < 2 then [s] else set_of_list (slices2 s))"

definition diceSim :: "string \<Rightarrow> string \<Rightarrow> rat" where
  "diceSim a b =
     (let A = bigrams a; B = bigrams b;
          inter = length (filter (\<lambda>x. x \<in> set B) A);
          denom = length A + length B
      in if denom = 0 then 0 else of_nat (2 * inter) / of_nat denom)"

text \<open>
  \<open>dice\<close> of badgeHeuristics.ts is a copy of \<open>diceSim\<close>, over a copy of \<open>bigrams\<close>.
\<close>

definition dice :: "string \<Rightarrow> string \<Rightarrow> rat" where
  "dice a b =
     (let A = bigrams a; B = bigrams b;
          inter = length (filter (\<lambda>x. x \<in> set B) A);
          denom = length A + length B
      in if denom = 0 then 0 else of_nat (2 * inter) / of_nat denom)"

section \<open>Regular expressions\<close>

text \<open>
  The anchored patterns that the source applies with \<open>RegExp.test\<close> are regular
  languages.  They are written as terms of \<open>rx\<close> and decided by derivatives:
  \<open>matches r s\<close> is \<open>/^r$/.test(s)\<close>.
\<close>

datatype rx = Nul | Eps | Sym "char \<Rightarrow> bool" | Seq rx rx | Alt rx rx | Star rx

fun nullable :: "rx \<Rightarrow> bool" where
  "nullable Nul = False"
| "nullable Eps = True"
| "nullable (Sym p) = False"
| "nullable (Seq a b) = (nullable a \<and> nullable b)"
| "nullable (Alt a b) = (nullable a \<or> nullable b)"
| "nullable (Star a) = True"

fun deriv :: "char \<Rightarrow> rx \<Rightarrow> rx" where
  "deriv c Nul = Nul"
| "deriv c Eps = Nul"
| "deriv c (Sym p) = (if p c then Eps else Nul)"
| "deriv c (Seq a b) =
     (if nullable a then Alt (Seq (deriv c a) b) (deriv c b) else Seq (deriv c a) b)"
| "deriv c (Alt a b) = Alt (deriv c a) (deriv c b)"
| "deriv c (Star a) = Seq (deriv c a) (Star a)"

fun matches :: "rx \<Rightarrow> string \<Rightarrow> bool" where
  "matches r [] = nullable r"
| "matches r (c # cs) = matches (deriv c r) cs"

definition Lit :: "char \<Rightarrow> rx" where
  "Lit c = Sym (\<lambda>x. x = c)"

definition OneOf :: "string \<Rightarrow> rx" where
  "OneOf cs = Sym (\<lambda>x. x \<in> set cs)"

definition digit :: rx where
  "digit = Sym is_digit"

definition Opt :: "rx \<Rightarrow> rx" where
  "Opt r = Alt r Eps"

definition Plus :: "rx \<Rightarrow> rx" where
  "Plus r = Seq r (Star r)"

definition d2 :: rx where
  "d2 = Seq digit digit"

definition d4 :: rx where
  "d4 = Seq d2 d2"

definition d12 :: rx where
  "d12 = Seq digit (Opt digit)"

definition sign :: rx where
  "sign = OneOf ''+-''"

section \<open>Patterns and token sets of schema.ts and sqlite.ts\<close>

text \<open>\<open>/^[+-]?\d+$/\<close>\<close>

definition intRe :: rx where
  "intRe = Seq (Opt sign) (Plus digit)"

text \<open>\<open>/^[+-]?(?:\d+\.\d*|\.\d+|\d+)(?:[eE][+-]?\d+)?$/\<close>\<close>

definition realRe :: rx where
  "realRe =
     Seq (Opt sign)
      (Seq (Alt (Seq (Plus digit) (Seq (Lit CHR ''.'') (Star digit)))
             (Alt (Seq (Lit CHR ''.'') (Plus digit)) (Plus digit)))
           (Opt (Seq (OneOf ''eE'') (Seq (Opt sign) (Plus digit)))))"

text \<open>\<open>/^\d{4}-\d{2}-\d{2}(?:[ T]\d{2}:\d{2}(?::\d{2})?)?(?:Z|[+-]\d{2}:\d{2})?$/\<close>\<close>

definition dateRe :: rx where
  "dateRe =
     Seq d4 (Seq (Lit CHR ''-'') (Seq d2 (Seq (Lit CHR ''-'') (Seq d2
      (Seq (Opt (Seq (OneOf '' T'') (Seq d2 (Seq (Lit CHR '':'') (Seq d2
                  (Opt (Seq (Lit CHR '':'') d2)))))))
           (Opt (Alt (Lit CHR ''Z'')
                     (Seq sign (Seq d2 (Seq (Lit CHR '':'') d2))))))))))"

definition boolTrue :: "string list" where
  "boolTrue = [''true'', ''1'', ''yes'', ''y'', ''t'']"

definition boolFalse :: "string list" where
  "boolFalse = [''false'', ''0'', ''no'', ''n'', ''f'']"

datatype Affinity = INTEGER | REAL | NUMERIC | TEXT

section \<open>Schema inference for CSV import (schema.ts)\<close>

text \<open>
  Ratios of counts are compared with the thresholds as exact rationals.  The source
  divides and compares in double precision; the two agree as long as the counts stay
  below \<open>10^14\<close>, where no quotient of counts other than the threshold itself rounds to
  the double nearest to 0.95 or 0.8.
\<close>

record InferredCol =
  ic_name :: string
  ic_affinity :: Affinity
  ic_notNull :: bool
  ic_unique :: bool
  ic_isBool :: bool
  ic_isDateLike :: bool

text \<open>A parsed CSV row, \<open>Record<string, string>\<close>; an absent property reads \<open>undefined\<close>.\<close>

type_synonym row = "string \<rightharpoonup> string"

text \<open>The counters of the loop over the rows of one column, and its set \<open>seen\<close>.\<close>

record col_stats =
  nonNull :: nat
  asInt :: nat
  asReal :: nat
  asBool :: nat
  asDate :: nat
  emptyCount :: nat
  seen :: "string list"

definition stats0 :: col_stats where
  "stats0 = \<lparr>nonNull = 0, asInt = 0, asReal = 0, asBool = 0, asDate = 0, emptyCount = 0, seen = []\<rparr>"

text \<open>\<open>(r[h] ?? "").toString().trim()\<close>\<close>

definition cell :: "row \<Rightarrow> string \<Rightarrow> string" where
  "cell r h = trim (case r h of None \<Rightarrow> [] | Some v \<Rightarrow> v)"

text \<open>One iteration of \<open>for (const r of rows)\<close> on the trimmed cell \<open>raw\<close>.\<close>

definition scan_cell :: "col_stats \<Rightarrow> string \<Rightarrow> col_stats" where
  "scan_cell st raw =
     (if raw = [] then st\<lparr>emptyCount := emptyCount st + 1\<rparr>
      else
        let lower = toLowerCase raw;
            st1 = st\<lparr>nonNull := nonNull st + 1\<rparr>;
            st2 = (if lower \<in> set boolTrue \<or> lower \<in> set boolFalse
                   then st1\<lparr>asBool := asBool st1 + 1\<rparr> else st1);
            st3 = (if matches intRe raw then st2\<lparr>asInt := asInt st2 + 1\<rparr>
                   else if matches realRe raw then st2\<lparr>asReal := asReal st2 + 1\<rparr>
                   else st2);
            st4 = (if matches dateRe raw then st3\<lparr>asDate := asDate st3 + 1\<rparr> else st3)
        in st4\<lparr>seen := set_add raw (seen st4)\<rparr>)"

definition scan_column :: "row list \<Rightarrow> string \<Rightarrow> col_stats" where
  "scan_column rows h = foldl scan_cell stats0 (map (\<lambda>r. cell r h) rows)"

text \<open>The decision on \<open>affinity\<close>, \<open>isBool\<close> and \<open>isDateLike\<close> from the counters.\<close>

definition decide_affinity :: "col_stats \<Rightarrow> Affinity \<times> bool \<times> bool" where
  "decide_affinity st =
     (if nonNull st > 0 then
        if (of_nat (asBool st) :: rat) / of_nat (nonNull st) \<ge> 95 / 100 then (INTEGER, True, False)
        else if asInt st = nonNull st then (INTEGER, False, False)
        else if asInt st + asReal st = nonNull st then (REAL, False, False)
        else if (of_nat (asDate st) :: rat) / of_nat (nonNull st) \<ge> 8 / 10 then (NUMERIC, False, True)
        else (TEXT, False, False)
      else (TEXT, False, False))"

definition profile_column :: "row list \<Rightarrow> string \<Rightarrow> InferredCol" where
  "profile_column rows h =
     (let st = scan_column rows h;
          (affinity, isBool, isDateLike) = decide_affinity st;
          notNull = (emptyCount st = 0);
          unique = (nonNull st > 0 \<and> length (seen st) = nonNull st)
      in \<lparr>ic_name = h, ic_affinity = affinity, ic_notNull = notNull, ic_unique = unique,
          ic_isBool = isBool, ic_isDateLike = isDateLike\<rparr>)"

text \<open>The test that pushes a header onto \<open>pkCandidates\<close>.\<close>

definition idLike :: "string \<Rightarrow> string \<Rightarrow> bool" where
  "idLike tbl h \<longleftrightarrow>
     toLowerCase h = ''id'' \<or> toLowerCase h = toLowerCase tbl @ ''_id''"

definition pk_candidate :: "string \<Rightarrow> InferredCol \<Rightarrow> bool" where
  "pk_candidate tbl c \<longleftrightarrow>
     idLike tbl (ic_name c) \<and> ic_unique c \<and> ic_notNull c
     \<and> (ic_affinity c = INTEGER \<or> ic_affinity c = TEXT)"

text \<open>The predicate of the fallback \<open>cols.find(...)\<close>.\<close>

definition typical_id :: "InferredCol \<Rightarrow> bool" where
  "typical_id c \<longleftrightarrow> toLowerCase (ic_name c) = ''id'' \<and> ic_notNull c \<and> ic_affinity c = INTEGER"

record schema =
  s_cols :: "InferredCol list"
  s_pk :: "string option"
  s_uniqueCols :: "string list"

text \<open>
  \<open>inferSchema\<close>.  The loop over the headers pushes one profile per header, the header
  itself onto \<open>uniqueCols\<close> and \<open>pkCandidates\<close> when its tests hold; \<open>pk\<close> is
  \<open>pkCandidates[0]\<close>, and when there is none, the first column found by \<open>typical_id\<close>.
\<close>

definition inferSchema :: "row list \<Rightarrow> string list \<Rightarrow> string \<Rightarrow> schema" where
  "inferSchema rows headers tbl =
     (let cs = map (profile_column rows) headers;
          us = map ic_name (filter (\<lambda>c. ic_unique c \<and> ic_notNull c) cs);
          pkCandidates = map ic_name (filter (pk_candidate tbl) cs);
          p = (case pkCandidates of
                 h # _ \<Rightarrow> Some h
               | [] \<Rightarrow> (case find typical_id cs of None \<Rightarrow> None | Some c \<Rightarrow> Some (ic_name c)))
      in \<lparr>s_cols = cs, s_pk = p, s_uniqueCols = us\<rparr>)"

text \<open>\<open>v.replace(/'/g, "''")\<close>\<close>

definition escape_quotes :: "string \<Rightarrow> string" where
  "escape_quotes v = concat (map (\<lambda>c. if c = CHR 0x27 then [c, c] else [c]) v)"

definition toSqlLiteral :: "string option \<Rightarrow> InferredCol \<Rightarrow> string" where
  "toSqlLiteral raw col =
     (let v = trim (case raw of None \<Rightarrow> [] | Some x \<Rightarrow> x) in
      if v = [] then ''NULL''
      else if ic_isBool col then
        (let lower = toLowerCase v in
         if lower \<in> set boolTrue then ''1''
         else if lower \<in> set boolFalse then ''0''
         else ''NULL'')
      else if ic_affinity col = INTEGER \<and> matches intRe v then v
      else if ic_affinity col = REAL \<and> (matches intRe v \<or> matches realRe v) then v
      else [CHR 0x27] @ escape_quotes v @ [CHR 0x27])"

definition safeIdent :: "string \<Rightarrow> string" where
  "safeIdent n = [CHR 0x22] @ concat (map (\<lambda>c. if c = CHR 0x22 then [c, c] else [c]) n) @ [CHR 0x22]"

section \<open>Untyped values, numbers and integer literals\<close>

text \<open>
  The values of a row typed \<open>unknown\<close>: \<open>undefined\<close> (also what an absent property
  reads), \<open>null\<close>, a string, or a number.  Numbers are modelled only where they are
  integers of magnitude at most \<open>2^53\<close>, which \<open>String\<close> prints in plain decimal digits
  and for which \<open>Number.isInteger\<close> holds; the CSV parser, called without dynamic typing,
  produces strings only.
\<close>

datatype js_value = JUndefined | JNull | JStr string | JNum int

type_synonym js_object = "(string \<times> js_value) list"

text \<open>\<open>r[h]\<close> on an object given by its own properties in key order.\<close>

definition property :: "js_object \<Rightarrow> string \<Rightarrow> js_value" where
  "property r h = (case map_of r h of None \<Rightarrow> JUndefined | Some v \<Rightarrow> v)"

definition digit_char :: "nat \<Rightarrow> char" where
  "digit_char d = ''0123456789'' ! d"

fun show_nat :: "nat \<Rightarrow> string" where
  "show_nat n = (if n < 10 then [digit_char n] else show_nat (n div 10) @ [digit_char (n mod 10)])"

declare show_nat.simps [simp del]

definition show_int :: "int \<Rightarrow> string" where
  "show_int i = (if i < 0 then CHR ''-'' # show_nat (nat (- i)) else show_nat (nat i))"

definition js_String :: "js_value \<Rightarrow> string" where
  "js_String v =
     (case v of JUndefined \<Rightarrow> ''undefined'' | JNull \<Rightarrow> ''null'' | JStr s \<Rightarrow> s | JNum n \<Rightarrow> show_int n)"

text \<open>The integer written by a string of the shape \<open>[+-]?\d+\<close>.\<close>

definition digit_val :: "char \<Rightarrow> nat" where
  "digit_val c = of_char c - 48"

definition nat_value :: "string \<Rightarrow> nat" where
  "nat_value ds = foldl (\<lambda>a c. 10 * a + digit_val c) 0 ds"

definition int_value :: "string \<Rightarrow> int" where
  "int_value s =
     (case s of
        [] \<Rightarrow> 0
      | c # r \<Rightarrow> if c = CHR ''-'' then - int (nat_value r)
                 else if c = CHR ''+'' then int (nat_value r)
                 else int (nat_value s))"

text \<open>Reading a literal back as an integer: defined on the integer pattern only.\<close>

definition parse_int :: "string \<Rightarrow> int option" where
  "parse_int s = (if matches intRe s then Some (int_value s) else None)"

text \<open>
  A JavaScript number, as far as the coercer produces one.  \<open>Number(s)\<close> of an integer
  literal is the double nearest to its value, ties to the even significand, and
  infinite from \<open>2^1024\<close> on; \<open>Number(s)\<close> of a literal with a fraction or an exponent is
  kept unevaluated as \<open>NumberOf s\<close>.
\<close>

datatype js_number = Integral int | Infinity bool | NumberOf string

fun bitlen :: "nat \<Rightarrow> nat" where
  "bitlen n = (if n = 0 then 0 else Suc (bitlen (n div 2)))"

declare bitlen.simps [simp del]

definition round53 :: "nat \<Rightarrow> nat" where
  "round53 m =
     (if m < 2 ^ 53 then m
      else let k = bitlen m - 53; q = m div 2 ^ k; r = m mod 2 ^ k; h = 2 ^ (k - 1);
               q' = (if r > h \<or> (r = h \<and> odd q) then q + 1 else q)
           in q' * 2 ^ k)"

definition number_of_int :: "int \<Rightarrow> js_number" where
  "number_of_int i =
     (let m = round53 (nat \<bar>i\<bar>) in
      if m \<ge> 2 ^ 1024 then Infinity (i < 0)
      else Integral (if i < 0 then - int m else int m))"

definition js_Number :: "string \<Rightarrow> js_number" where
  "js_Number s = (if matches intRe s then number_of_int (int_value s) else NumberOf s)"

section \<open>CSV import into the store (sqlite.ts)\<close>

record guess_stats =
  g_nn :: nat
  g_ints :: nat
  g_nums :: nat
  g_dates :: nat
  g_bools :: nat

definition guess0 :: guess_stats where
  "guess0 = \<lparr>g_nn = 0, g_ints = 0, g_nums = 0, g_dates = 0, g_bools = 0\<rparr>"

text \<open>
  One iteration of the loop of \<open>guessAffinity\<close>.  Every branch ends in \<open>continue\<close>: a
  value is counted in one class only, the first that applies.
\<close>

definition guess_step :: "guess_stats \<Rightarrow> js_value \<Rightarrow> guess_stats" where
  "guess_step st v =
     (if v = JNull \<or> v = JUndefined \<or> v = JStr [] then st
      else
        let st1 = st\<lparr>g_nn := g_nn st + 1\<rparr> in
        case v of
          JNum n \<Rightarrow> st1\<lparr>g_nums := g_nums st1 + 1, g_ints := g_ints st1 + 1\<rparr>
        | _ \<Rightarrow>
           let s = toLowerCase (trim (js_String v)) in
           if s = [] then st1
           else if s \<in> set boolTrue \<or> s \<in> set boolFalse then st1\<lparr>g_bools := g_bools st1 + 1\<rparr>
           else if matches intRe s then st1\<lparr>g_ints := g_ints st1 + 1, g_nums := g_nums st1 + 1\<rparr>
           else if matches realRe s then st1\<lparr>g_nums := g_nums st1 + 1\<rparr>
           else if matches dateRe s then st1\<lparr>g_dates := g_dates st1 + 1\<rparr>
           else st1)"

record guess =
  g_affinity :: Affinity
  g_isBool :: bool
  g_isDateLike :: bool

definition guessAffinity :: "js_value list \<Rightarrow> guess" where
  "guessAffinity values =
     (let st = foldl guess_step guess0 values;
          out = \<lparr>g_affinity = TEXT, g_isBool = False, g_isDateLike = False\<rparr>
      in if g_nn st = 0 then out
         else if (of_nat (g_bools st) :: rat) / of_nat (g_nn st) \<ge> 95 / 100
           then out\<lparr>g_affinity := INTEGER, g_isBool := True\<rparr>
         else if g_ints st = g_nn st then out\<lparr>g_affinity := INTEGER\<rparr>
         else if g_nums st = g_nn st then out\<lparr>g_affinity := REAL\<rparr>
         else if (of_nat (g_dates st) :: rat) / of_nat (g_nn st) \<ge> 8 / 10
           then out\<lparr>g_affinity := NUMERIC, g_isDateLike := True\<rparr>
         else out)"

datatype sql_value = SqlNull | SqlNumber js_number | SqlString string

definition coerceByAffinity :: "js_value \<Rightarrow> Affinity \<Rightarrow> bool \<Rightarrow> sql_value" where
  "coerceByAffinity v aff isBool =
     (if v = JNull \<or> v = JUndefined then SqlNull
      else
        let s = (case v of JStr x \<Rightarrow> trim x | _ \<Rightarrow> js_String v) in
        if s = [] then SqlNull
        else if isBool then
          (let low = toLowerCase s in
           if low \<in> set boolTrue then SqlNumber (Integral 1)
           else if low \<in> set boolFalse then SqlNumber (Integral 0)
           else SqlNull)
        else if aff = INTEGER \<and> matches intRe s then SqlNumber (js_Number s)
        else if aff = REAL \<and> (matches intRe s \<or> matches realRe s) then SqlNumber (js_Number s)
        else SqlString s)"

text \<open>
  \<open>importCsv\<close> up to the statements it sends: the primary key it settles on, the column
  definitions, the table constraints, the \<open>CREATE TABLE\<close> text and the column list of
  the \<open>INSERT\<close>.  The result is \<open>None\<close> where the function returns at once (no rows, or
  no headers).
\<close>

definition affinity_name :: "Affinity \<Rightarrow> string" where
  "affinity_name a = (case a of INTEGER \<Rightarrow> ''INTEGER'' | REAL \<Rightarrow> ''REAL''
                      | NUMERIC \<Rightarrow> ''NUMERIC'' | TEXT \<Rightarrow> ''TEXT'')"

text \<open>\<open>parts.join(sep)\<close>\<close>

fun join :: "string \<Rightarrow> string list \<Rightarrow> string" where
  "join sep [] = []"
| "join sep [x] = x"
| "join sep (x # y # ys) = x @ sep @ join sep (y # ys)"

text \<open>The loop that fills \<open>notNulls\<close> and \<open>uniques\<close>, for one header: the state \<open>(empty, seen, dup)\<close>.\<close>

definition constraint_step :: "nat \<times> string list \<times> bool \<Rightarrow> js_value \<Rightarrow> nat \<times> string list \<times> bool" where
  "constraint_step st raw =
     (case st of (emp, sn, dup) \<Rightarrow>
        let v = (if raw = JNull \<or> raw = JUndefined then [] else trim (js_String raw)) in
        if v = [] then (emp + 1, sn, dup)
        else (emp, set_add v sn, dup \<or> v \<in> set sn))"

definition column_values :: "js_object list \<Rightarrow> string \<Rightarrow> js_value list" where
  "column_values rows h = map (\<lambda>r. property r h) rows"

definition is_notNull :: "js_object list \<Rightarrow> string \<Rightarrow> bool" where
  "is_notNull rows h =
     (case foldl constraint_step (0, [], False) (column_values rows h) of
        (emp, sn, dup) \<Rightarrow> emp = 0)"

definition is_unique :: "js_object list \<Rightarrow> string \<Rightarrow> bool" where
  "is_unique rows h =
     (case foldl constraint_step (0, [], False) (column_values rows h) of
        (emp, sn, dup) \<Rightarrow> \<not> dup \<and> length sn > 0)"

text \<open>The natural key: a header \<open>id\<close> whose values are all present and pairwise distinct.\<close>

definition natural_pk :: "js_object list \<Rightarrow> string list \<Rightarrow> string option" where
  "natural_pk rows headers =
     (if ''id'' \<in> set headers then
        let all = column_values rows ''id'';
            notNull = list_all (\<lambda>v. v \<noteq> JNull \<and> v \<noteq> JUndefined \<and> trim (js_String v) \<noteq> []) all;
            uniq = (length (set_of_list (map js_String all)) = length all)
        in if notNull \<and> uniq then Some ''id'' else None
      else None)"

record import_plan =
  ip_pk :: "string option"
  ip_colDefs :: "string list"
  ip_uniqueClauses :: "string list"
  ip_ddl :: string
  ip_insertCols :: "string list"

definition importCsv :: "string \<Rightarrow> js_object list \<Rightarrow> import_plan option" where
  "importCsv tbl rows =
     (case rows of
        [] \<Rightarrow> None
      | r0 # _ \<Rightarrow>
         let headers = map fst r0 in
         if headers = [] then None
         else
           let sample = take 1000 rows;
               inferred = map (\<lambda>h. (h, guessAffinity (column_values sample h))) headers;
               notNulls = filter (is_notNull rows) headers;
               uniques = filter (is_unique rows) headers;
               pk = natural_pk rows headers;
               colDefs =
                 (if pk = None then [safeIdent ''id'' @ '' INTEGER PRIMARY KEY''] else [])
                 @ map (\<lambda>(n, g). join '' ''
                          ([safeIdent n @ '' '' @ affinity_name (g_affinity g)]
                           @ (if n \<in> set notNulls then [''NOT NULL''] else []))) inferred;
               uniqueClauses =
                 map (\<lambda>u. ''UNIQUE ('' @ safeIdent u @ '')'') (filter (\<lambda>u. Some u \<noteq> pk) uniques);
               pkClause = (case pk of None \<Rightarrow> [] | Some k \<Rightarrow> '', PRIMARY KEY ('' @ safeIdent k @ '')'');
               ddl = ''CREATE TABLE IF NOT EXISTS '' @ safeIdent tbl @ '' (''
                     @ join '', '' colDefs @ pkClause
                     @ (if uniqueClauses \<noteq> [] then '', '' @ join '', '' uniqueClauses else [])
                     @ '')'';
               insertCols = (if pk = None then ''id'' # headers else headers)
           in Some \<lparr>ip_pk = pk, ip_colDefs = colDefs, ip_uniqueClauses = uniqueClauses,
                     ip_ddl = ddl, ip_insertCols = insertCols\<rparr>)"

section \<open>Column preview of the upload dialog (csvUtils.ts)\<close>

text \<open>\<open>rx\<close> terms in sequence.\<close>

definition seqs :: "rx list \<Rightarrow> rx" where
  "seqs rs = foldr Seq rs Eps"

text \<open>\<open>/^-?\d+$/\<close> and \<open>/^-?\d+(\.\d+)?$/\<close>\<close>

definition isInt :: "string \<Rightarrow> bool" where
  "isInt x = matches (seqs [Opt (Lit CHR ''-''), Plus digit]) x"

definition isDecimal :: "string \<Rightarrow> bool" where
  "isDecimal x =
     matches (seqs [Opt (Lit CHR ''-''), Plus digit, Opt (seqs [Lit CHR ''.'', Plus digit])]) x"

text \<open>The optional time of day \<open>(?:[ T]\d{1,2}:\d{2}(?::\d{2})?)?\<close>.\<close>

definition time_opt :: rx where
  "time_opt = Opt (seqs [OneOf '' T'', d12, Lit CHR '':'', d2, Opt (seqs [Lit CHR '':'', d2])])"

text \<open>\<open>/^\d{4}S\d{1,2}S\d{1,2}(time)?$/\<close> for a separator \<open>S\<close>.\<close>

definition year_first :: "char \<Rightarrow> rx" where
  "year_first sep = seqs [d4, Lit sep, d12, Lit sep, d12, time_opt]"

definition YEAR_FIRST_VARIANTS :: "rx list" where
  "YEAR_FIRST_VARIANTS =
     [year_first CHR ''-'', year_first CHR ''/'', year_first CHR ''.'', seqs [d4, d2, d2]]"

text \<open>\<open>(?:0?[1-9]|1[0-2])\<close> and \<open>(?:0?[1-9]|[12]\d|3[01])\<close>\<close>

definition month_rx :: rx where
  "month_rx = Alt (seqs [Opt (Lit CHR ''0''), OneOf ''123456789'']) (seqs [Lit CHR ''1'', OneOf ''012''])"

definition day_rx :: rx where
  "day_rx = Alt (seqs [Opt (Lit CHR ''0''), OneOf ''123456789''])
              (Alt (seqs [OneOf ''12'', digit]) (seqs [Lit CHR ''3'', OneOf ''01'']))"

definition MDY_VARIANTS :: "rx list" where
  "MDY_VARIANTS = [seqs [month_rx, OneOf ''/-'', day_rx, OneOf ''/-'', d4, time_opt]]"

definition DMY_VARIANTS :: "rx list" where
  "DMY_VARIANTS = [seqs [day_rx, OneOf ''/-'', month_rx, OneOf ''/-'', d4, time_opt]]"

text \<open>\<open>/^\d{4}-\d{2}-\d{2}T\d{2}:\d{2}:\d{2}(?:\.\d+)?(?:Z|[+\-]\d{2}:\d{2})$/\<close>\<close>

definition ISO_VARIANTS :: "rx list" where
  "ISO_VARIANTS =
     [seqs [d4, Lit CHR ''-'', d2, Lit CHR ''-'', d2, Lit CHR ''T'', d2, Lit CHR '':'', d2,
            Lit CHR '':'', d2, Opt (seqs [Lit CHR ''.'', Plus digit]),
            Alt (Lit CHR ''Z'') (seqs [sign, d2, Lit CHR '':'', d2])]]"

definition isDateLike_str :: "string \<Rightarrow> bool" where
  "isDateLike_str s =
     (let v = trim s in
      if length v = 0 then False
      else list_ex (\<lambda>r. matches r v) (YEAR_FIRST_VARIANTS @ ISO_VARIANTS)
           \<or> list_ex (\<lambda>r. matches r v) (MDY_VARIANTS @ DMY_VARIANTS))"

datatype InferredType = T_int | T_decimal | T_date | T_string

record InferredColumn =
  col_name :: string
  col_type :: InferredType
  col_nullRate :: rat
  col_unique :: bool

record csv_stats =
  c_nullCount :: nat
  c_ints :: nat
  c_decimals :: nat
  c_dates :: nat
  c_seen :: "string list"
  c_hasNull :: bool

definition csv0 :: csv_stats where
  "csv0 = \<lparr>c_nullCount = 0, c_ints = 0, c_decimals = 0, c_dates = 0, c_seen = [], c_hasNull = False\<rparr>"

definition csv_step :: "csv_stats \<Rightarrow> js_value \<Rightarrow> csv_stats" where
  "csv_step st v =
     (if v = JNull \<or> v = JStr [] then st\<lparr>c_nullCount := c_nullCount st + 1, c_hasNull := True\<rparr>
      else
        let s = trim (js_String v) in
        if length s = 0 then st\<lparr>c_nullCount := c_nullCount st + 1, c_hasNull := True\<rparr>
        else
          let st1 = st\<lparr>c_seen := set_add s (c_seen st)\<rparr> in
          if isInt s then st1\<lparr>c_ints := c_ints st1 + 1\<rparr>
          else if isDecimal s then st1\<lparr>c_decimals := c_decimals st1 + 1\<rparr>
          else if isDateLike_str s then st1\<lparr>c_dates := c_dates st1 + 1\<rparr>
          else st1)"

definition inferColumn :: "js_object list \<Rightarrow> string \<Rightarrow> InferredColumn" where
  "inferColumn rows h =
     (let values = filter (\<lambda>v. v \<noteq> JUndefined) (map (\<lambda>r. property r h) rows);
          st = foldl csv_step csv0 values;
          nonNull = length values - c_nullCount st;
          ty = (if nonNull > 0 then
                  if c_ints st = nonNull then T_int
                  else if c_ints st + c_decimals st = nonNull then T_decimal
                  else if c_dates st = nonNull then T_date
                  else T_string
                else T_string);
          nr = (of_nat (c_nullCount st) :: rat) / of_nat (if length values = 0 then 1 else length values);
          uq = (\<not> c_hasNull st \<and> length (c_seen st) = nonNull \<and> nonNull > 0)
      in \<lparr>col_name = h, col_type = ty, col_nullRate = nr, col_unique = uq\<rparr>)"

definition inferColumns :: "js_object list \<Rightarrow> string list \<Rightarrow> InferredColumn list" where
  "inferColumns rows headers = map (inferColumn rows) headers"

section \<open>The store and its errors\<close>

text \<open>
  Every statement goes through \<open>query\<close> of sqlite.ts, which throws what the database
  throws.  The engine sends five kinds of statement; the store is modelled by one
  answer function per kind, taking the names that the source quotes into the SQL
  text (the quoting is injective, so an answer depends on the names only).  An answer
  is the error thrown (\<open>Inl\<close>) or the rows returned (\<open>Inr\<close>).  The answers do not
  change during one inference pass.
\<close>

datatype js_error = StoreError string | SqliteMetaError string js_error

type_synonym 'a result = "js_error + 'a"

record PragmaTableInfoRow =
  ti_cid :: int
  ti_name :: string
  ti_type :: string
  ti_notnull :: int
  ti_dflt_value :: "string option"
  ti_pk :: int

record PragmaIndexListRow =
  il_seq :: int
  il_name :: string
  il_unique :: int
  il_origin :: string
  il_partial :: int

record PragmaIndexInfoRow =
  ii_seqno :: int
  ii_cid :: int
  ii_name :: "string option"

text \<open>The row of the coverage query; an SQL \<open>NULL\<close> is \<open>None\<close>.\<close>

record coverage_row =
  r_matched :: "int option"
  r_total :: "int option"

record store =
  q_listTables :: "string list result"
  q_table_info :: "string \<Rightarrow> PragmaTableInfoRow list result"
  q_index_list :: "string \<Rightarrow> PragmaIndexListRow list result"
  q_index_info :: "string \<Rightarrow> PragmaIndexInfoRow list result"
  q_coverage :: "string \<Rightarrow> string \<Rightarrow> string \<Rightarrow> string \<Rightarrow> coverage_row list result"

text \<open>\<open>try { ... } catch (e) { throw new SqliteMetaError(msg, e) }\<close>\<close>

definition wrap_error :: "string \<Rightarrow> 'a result \<Rightarrow> 'a result" where
  "wrap_error msg r = (case r of Inl e \<Rightarrow> Inl (SqliteMetaError msg e) | Inr x \<Rightarrow> Inr x)"

section \<open>Table metadata (sqliteMeta.ts)\<close>

record ColumnMeta =
  cm_name :: string
  cm_dataType :: string
  cm_uniqueNoNull :: bool
  cm_isPk :: bool

record TableMeta =
  tm_name :: string
  tm_columns :: "ColumnMeta list"

record FKTuple =
  fromTable :: string
  fromColumn :: string
  toTable :: string
  toColumn :: string

text \<open>The loop of \<open>getUniqueColumns\<close> over the index list.\<close>

fun scan_indexes :: "store \<Rightarrow> PragmaIndexListRow list \<Rightarrow> string list \<Rightarrow> string list result" where
  "scan_indexes st [] uniques = Inr uniques"
| "scan_indexes st (idx # rest) uniques =
     (if il_unique idx \<noteq> 1 then scan_indexes st rest uniques
      else case q_index_info st (il_name idx) of
             Inl e \<Rightarrow> Inl e
           | Inr ics \<Rightarrow>
               scan_indexes st rest
                 (case ics of
                    [c] \<Rightarrow> (case ii_name c of
                               Some n \<Rightarrow> if n \<noteq> [] then set_add n uniques else uniques
                             | None \<Rightarrow> uniques)
                  | _ \<Rightarrow> uniques))"

definition add_pk_columns :: "PragmaTableInfoRow list \<Rightarrow> string list \<Rightarrow> string list" where
  "add_pk_columns ti uniques = foldl (\<lambda>u c. if ti_pk c = 1 then set_add (ti_name c) u else u) uniques ti"

definition getUniqueColumns :: "store \<Rightarrow> string \<Rightarrow> string list result" where
  "getUniqueColumns st tbl =
     wrap_error (''getUniqueColumns failed: '' @ tbl)
       (case q_index_list st tbl of
          Inl e \<Rightarrow> Inl e
        | Inr idxList \<Rightarrow>
           (case scan_indexes st idxList [] of
              Inl e \<Rightarrow> Inl e
            | Inr uniques \<Rightarrow>
               (case q_table_info st tbl of
                  Inl e \<Rightarrow> Inl e
                | Inr ti \<Rightarrow> Inr (add_pk_columns ti uniques))))"

definition column_meta :: "string list \<Rightarrow> PragmaTableInfoRow \<Rightarrow> ColumnMeta" where
  "column_meta uniques r =
     \<lparr>cm_name = ti_name r,
      cm_dataType = (if ti_type r = [] then ''TEXT'' else ti_type r),
      cm_uniqueNoNull = (ti_name r \<in> set uniques \<and> ti_notnull r = 1),
      cm_isPk = (ti_pk r = 1)\<rparr>"

text \<open>The loop of \<open>getTablesMeta\<close> over the table names.\<close>

fun tables_meta :: "store \<Rightarrow> string list \<Rightarrow> TableMeta list \<Rightarrow> TableMeta list result" where
  "tables_meta st [] out = Inr out"
| "tables_meta st (t # ts) out =
     (case q_table_info st t of
        Inl e \<Rightarrow> Inl e
      | Inr ti \<Rightarrow>
         (case getUniqueColumns st t of
            Inl e \<Rightarrow> Inl e
          | Inr uniques \<Rightarrow>
              tables_meta st ts (out @ [\<lparr>tm_name = t, tm_columns = map (column_meta uniques) ti\<rparr>])))"

definition getTablesMeta :: "store \<Rightarrow> TableMeta list result" where
  "getTablesMeta st =
     wrap_error ''getTablesMeta failed''
       (case q_listTables st of Inl e \<Rightarrow> Inl e | Inr names \<Rightarrow> tables_meta st names [])"

section \<open>Foreign keys from names (sqliteMeta.ts)\<close>

record InferOptions =
  nameHintMinSim :: rat
  excludeBareId :: bool
  allowSelfReference :: bool

definition defaultInferOptions :: InferOptions where
  "defaultInferOptions = \<lparr>nameHintMinSim = 8 / 10, excludeBareId = True, allowSelfReference = False\<rparr>"

text \<open>\<open>Partial<InferOptions>\<close>: each option given or left out.\<close>

record PartialInferOptions =
  p_nameHintMinSim :: "rat option"
  p_excludeBareId :: "bool option"
  p_allowSelfReference :: "bool option"

text \<open>\<open>{ ...defaultInferOptions, ...(opts ?? {}) }\<close>\<close>

definition merge_options :: "PartialInferOptions option \<Rightarrow> InferOptions" where
  "merge_options opts =
     (case opts of
        None \<Rightarrow> defaultInferOptions
      | Some p \<Rightarrow>
         \<lparr>nameHintMinSim = (case p_nameHintMinSim p of None \<Rightarrow> nameHintMinSim defaultInferOptions | Some x \<Rightarrow> x),
          excludeBareId = (case p_excludeBareId p of None \<Rightarrow> excludeBareId defaultInferOptions | Some x \<Rightarrow> x),
          allowSelfReference =
            (case p_allowSelfReference p of None \<Rightarrow> allowSelfReference defaultInferOptions | Some x \<Rightarrow> x)\<rparr>)"

text \<open>
  \<open>lc.match(/^(.+)_id$/)\<close>: the group is the name without its last three characters,
  which must be \<open>_id\<close>; it is not empty and holds no line terminator.
\<close>

definition match_snake_id :: "string \<Rightarrow> string option" where
  "match_snake_id lc =
     (if endsWith lc ''_id'' \<and> dropLast 3 lc \<noteq> [] \<and> \<not> list_ex is_line_terminator (dropLast 3 lc)
      then Some (dropLast 3 lc) else None)"

text \<open>The columns of a table that may serve as a key: the set \<open>s\<close> stored in \<open>uniqueMap\<close>.\<close>

definition key_columns :: "TableMeta \<Rightarrow> string list" where
  "key_columns t =
     set_of_list (map cm_name
       (filter (\<lambda>c. cm_isPk c \<or> toLowerCase (cm_name c) = ''id'' \<or> cm_uniqueNoNull c) (tm_columns t)))"

definition uniqueMap :: "TableMeta list \<Rightarrow> (string \<rightharpoonup> string list)" where
  "uniqueMap metas = foldl (\<lambda>m t. m(tm_name t \<mapsto> key_columns t)) Map.empty metas"

text \<open>The search for the most similar table; \<open>best\<close> is \<open>null\<close> or a table with its score.\<close>

definition best_step ::
  "InferOptions \<Rightarrow> string \<Rightarrow> string \<Rightarrow> (string \<times> rat) option \<Rightarrow> string \<times> string \<Rightarrow> (string \<times> rat) option" where
  "best_step os t base best cand =
     (case cand of (tbl, n) \<Rightarrow>
        if \<not> allowSelfReference os \<and> tbl = t then best
        else
          let score = diceSim base n in
          if score \<ge> nameHintMinSim os \<and> (case best of None \<Rightarrow> True | Some (_, bs) \<Rightarrow> score > bs)
          then Some (tbl, score) else best)"

text \<open>The body of the loop over the columns: the tuple pushed for one column, if any.\<close>

definition infer_column ::
  "InferOptions \<Rightarrow> TableMeta list \<Rightarrow> string \<Rightarrow> string \<Rightarrow> FKTuple option" where
  "infer_column os metas t cname =
     (let lc = toLowerCase cname in
      if excludeBareId os \<and> lc = ''id'' then None
      else case match_snake_id lc of
        None \<Rightarrow> None
      | Some m1 \<Rightarrow>
         let base = normalize m1;
             normNames = map (\<lambda>t. (tm_name t, normalize (tm_name t))) metas
         in case foldl (best_step os t base) None normNames of
              None \<Rightarrow> None
            | Some (bestTable, _) \<Rightarrow>
               (case uniqueMap metas bestTable of
                  None \<Rightarrow> None
                | Some uniqs \<Rightarrow>
                   if length uniqs = 0 then None
                   else Some \<lparr>fromTable = t, fromColumn = cname, toTable = bestTable,
                              toColumn = (if ''id'' \<in> set uniqs then ''id'' else hd uniqs)\<rparr>))"

text \<open>
  \<open>inferForeignKeys\<close>.  Its body sends no statement and raises nothing on metadata of
  the declared type, so the \<open>catch\<close> that would wrap an error is never entered.
\<close>

definition inferForeignKeys :: "TableMeta list \<Rightarrow> PartialInferOptions option \<Rightarrow> FKTuple list result" where
  "inferForeignKeys metas opts =
     wrap_error ''inferForeignKeys failed''
       (let os = merge_options opts in
        Inr (concat (map (\<lambda>t. List.map_filter (\<lambda>c. infer_column os metas (tm_name t) (cm_name c))
                                 (tm_columns t)) metas)))"

text \<open>
  The reload of the ER page (\<open>useMetaLoader\<close>): the metadata is read from the store,
  and the foreign keys are inferred from it with the options written out there.  No
  table gives the empty result without inference.
\<close>

definition reload_options :: PartialInferOptions where
  "reload_options = \<lparr>p_nameHintMinSim = Some (8 / 10), p_excludeBareId = Some True,
                      p_allowSelfReference = Some False\<rparr>"

definition loadForeignKeys :: "store \<Rightarrow> FKTuple list result" where
  "loadForeignKeys st =
     (case getTablesMeta st of
        Inl e \<Rightarrow> Inl e
      | Inr metas \<Rightarrow>
          if length metas = 0 then Inr []
          else inferForeignKeys metas (Some reload_options))"

section \<open>Foreign-key edges with coverage (analytics.ts)\<close>

record FkEdge =
  e_source :: string
  e_target :: string
  e_col :: string
  e_coverage :: rat
  e_matched :: int
  e_total :: int

definition singularize :: "string \<Rightarrow> string" where
  "singularize s = (if endsWith s ''s'' then dropLast 1 s else s)"

text \<open>\<open>/^id$/i\<close> on one string.\<close>

definition is_id_ci :: "string \<Rightarrow> bool" where
  "is_id_ci s \<longleftrightarrow> s \<in> set [''id'', ''iD'', ''Id'', ''ID'']"

text \<open>
  \<open>col.match(/^(.*?)(?:_?id)$/i)\<close>, the group \<open>m[1]\<close>: the lazy group stops at the
  first position from which \<open>_?id\<close> reaches the end, so before \<open>_id\<close> when the name
  ends so, and before \<open>id\<close> otherwise; the group holds no line terminator.
\<close>

definition match_id_suffix :: "string \<Rightarrow> string option" where
  "match_id_suffix cname =
     (let n = length cname in
      if n \<ge> 3 \<and> cname ! (n - 3) = CHR ''_'' \<and> is_id_ci (drop (n - 2) cname)
           \<and> \<not> list_ex is_line_terminator (take (n - 3) cname)
        then Some (take (n - 3) cname)
      else if n \<ge> 2 \<and> is_id_ci (drop (n - 2) cname)
           \<and> \<not> list_ex is_line_terminator (take (n - 2) cname)
        then Some (take (n - 2) cname)
      else None)"

text \<open>\<open>m[1].replace(/[_\s]+$/g, "").toLowerCase()\<close>\<close>

definition base_name :: "string \<Rightarrow> string" where
  "base_name m1 = toLowerCase (rev (dropWhile (\<lambda>c. c = CHR ''_'' \<or> is_ws c) (rev m1)))"

definition variants :: "string \<Rightarrow> string list" where
  "variants base = (let sg = singularize base in set_of_list [base, sg, base @ ''s'', sg @ ''s''])"

text \<open>\<open>new Map(tables.map(n => [n.toLowerCase(), n]))\<close>: a later table replaces an earlier one.\<close>

definition lowerToOrig :: "string list \<Rightarrow> (string \<rightharpoonup> string)" where
  "lowerToOrig tables = foldl (\<lambda>m n. m(toLowerCase n \<mapsto> n)) Map.empty tables"

definition parents_of :: "string list \<Rightarrow> string \<Rightarrow> string list" where
  "parents_of tables base = List.map_filter (lowerToOrig tables) (variants base)"

text \<open>\<open>pcols.find(pc => pc.pk === 1)?.name ?? "id"\<close>\<close>

definition pk_column :: "PragmaTableInfoRow list \<Rightarrow> string" where
  "pk_column pcols = (case find (\<lambda>pc. ti_pk pc = 1) pcols of None \<Rightarrow> ''id'' | Some pc \<Rightarrow> ti_name pc)"

text \<open>\<open>res[0]?.matched ?? 0\<close> and \<open>res[0]?.total ?? 0\<close>\<close>

definition first_matched :: "coverage_row list \<Rightarrow> int" where
  "first_matched res = (case res of [] \<Rightarrow> 0 | r # _ \<Rightarrow> (case r_matched r of None \<Rightarrow> 0 | Some m \<Rightarrow> m))"

definition first_total :: "coverage_row list \<Rightarrow> int" where
  "first_total res = (case res of [] \<Rightarrow> 0 | r # _ \<Rightarrow> (case r_total r of None \<Rightarrow> 0 | Some t \<Rightarrow> t))"

definition MIN_COVERAGE :: rat where
  "MIN_COVERAGE = 8 / 10"

text \<open>
  The two statements sent for one candidate parent: its \<open>PRAGMA table_info\<close>, and the
  coverage query on the key found there; the result is \<open>(matched, total)\<close>.
\<close>

definition probe :: "store \<Rightarrow> string \<Rightarrow> string \<Rightarrow> string \<Rightarrow> (int \<times> int) result" where
  "probe st child cname parent =
     (case q_table_info st parent of
        Inl e \<Rightarrow> Inl e
      | Inr pcols \<Rightarrow>
         (case q_coverage st child cname parent (pk_column pcols) of
            Inl e \<Rightarrow> Inl e
          | Inr res \<Rightarrow> Inr (first_matched res, first_total res)))"

text \<open>\<open>total !== 0\<close> and \<open>matched / total >= MIN_COVERAGE\<close>\<close>

definition accepted :: "int \<Rightarrow> int \<Rightarrow> bool" where
  "accepted matched tot \<longleftrightarrow> tot \<noteq> 0 \<and> of_int matched / of_int tot \<ge> MIN_COVERAGE"

text \<open>
  The loop over the candidate parents of one column.  It ends at the first parent
  whose coverage reaches \<open>MIN_COVERAGE\<close>, with that edge pushed (\<open>break\<close>); a parent
  without rows to compare (\<open>total = 0\<close>) or below the threshold is passed over.
\<close>

fun scan_parents :: "store \<Rightarrow> string \<Rightarrow> string \<Rightarrow> string list \<Rightarrow> FkEdge list \<Rightarrow> FkEdge list result" where
  "scan_parents st child cname [] edges = Inr edges"
| "scan_parents st child cname (parent # ps) edges =
     (case probe st child cname parent of
        Inl e \<Rightarrow> Inl e
      | Inr (matched, tot) \<Rightarrow>
          if accepted matched tot
          then Inr (edges @ [\<lparr>e_source = child, e_target = parent, e_col = cname,
                               e_coverage = of_int matched / of_int tot,
                               e_matched = matched, e_total = tot\<rparr>])
          else scan_parents st child cname ps edges)"

text \<open>The body of the loop over the columns of one child table.\<close>

definition scan_column_fk :: "store \<Rightarrow> string list \<Rightarrow> string \<Rightarrow> string \<Rightarrow> FkEdge list \<Rightarrow> FkEdge list result" where
  "scan_column_fk st tables child cname edges =
     (case match_id_suffix cname of
        None \<Rightarrow> Inr edges
      | Some m1 \<Rightarrow>
         if is_id_ci cname then Inr edges
         else
           let base = base_name m1 in
           if base = [] then Inr edges
           else
             let parents = parents_of tables base in
             if length parents = 0 then Inr edges
             else scan_parents st child cname parents edges)"

fun scan_columns_fk :: "store \<Rightarrow> string list \<Rightarrow> string \<Rightarrow> string list \<Rightarrow> FkEdge list \<Rightarrow> FkEdge list result" where
  "scan_columns_fk st tables child [] edges = Inr edges"
| "scan_columns_fk st tables child (c # cs) edges =
     (case scan_column_fk st tables child c edges of
        Inl e \<Rightarrow> Inl e
      | Inr edges' \<Rightarrow> scan_columns_fk st tables child cs edges')"

text \<open>The loop over the child tables; \<open>tables\<close> stays the whole list, \<open>children\<close> is what is left.\<close>

fun scan_tables_fk :: "store \<Rightarrow> string list \<Rightarrow> string list \<Rightarrow> FkEdge list \<Rightarrow> FkEdge list result" where
  "scan_tables_fk st tables [] edges = Inr edges"
| "scan_tables_fk st tables (child # rest) edges =
     (case q_table_info st child of
        Inl e \<Rightarrow> Inl e
      | Inr cols \<Rightarrow>
         (case scan_columns_fk st tables child (map ti_name cols) edges of
            Inl e \<Rightarrow> Inl e
          | Inr edges' \<Rightarrow> scan_tables_fk st tables rest edges'))"

text \<open>
  \<open>edges.sort((a, b) => b.coverage - a.coverage || b.matched - a.matched)\<close>: the
  comparator puts \<open>a\<close> before \<open>b\<close> when it is negative.  The sort is stable: an edge
  is inserted behind the edges it does not precede.
\<close>

definition precedes :: "FkEdge \<Rightarrow> FkEdge \<Rightarrow> bool" where
  "precedes a b \<longleftrightarrow>
     e_coverage a > e_coverage b \<or> (e_coverage a = e_coverage b \<and> e_matched a > e_matched b)"

fun insert_edge :: "FkEdge \<Rightarrow> FkEdge list \<Rightarrow> FkEdge list" where
  "insert_edge e [] = [e]"
| "insert_edge e (x # xs) = (if precedes e x then e # x # xs else x # insert_edge e xs)"

definition sort_edges :: "FkEdge list \<Rightarrow> FkEdge list" where
  "sort_edges es = foldl (\<lambda>acc e. insert_edge e acc) [] es"

definition inferFkEdges :: "store \<Rightarrow> string list \<Rightarrow> FkEdge list result" where
  "inferFkEdges st tables =
     (case scan_tables_fk st tables tables [] of
        Inl e \<Rightarrow> Inl e
      | Inr edges \<Rightarrow> Inr (take 30 (sort_edges edges)))"

section \<open>Relations of one table with coverage (relationsService.ts)\<close>

text \<open>
  The data room infers the relations of the selected table with \<open>inferRelations\<close>.  Its
  statements go through \<open>runQuery\<close>, which hands them to \<open>query\<close> of sqlite.ts: the
  three \<open>PRAGMA\<close> statements are those of the store above, and three more kinds are
  sent, a row count, a count of the distinct values of a column that are not
  \<open>NULL\<close>, and a coverage query that compares the values cast to text.  A result
  taken apart with \<open>const [{ ... }] = await runQuery(...)\<close> throws a \<open>TypeError\<close> when
  the statement returned no row.  Nothing is caught in this file.
\<close>

record count_row =
  cnt_c :: int

record distinct_row =
  dst_d :: int

record relation_queries =
  rq_count :: "string \<Rightarrow> count_row list result"
  rq_distinct :: "string \<Rightarrow> string \<Rightarrow> distinct_row list result"
  rq_coverage :: "string \<Rightarrow> string \<Rightarrow> string \<Rightarrow> string \<Rightarrow> coverage_row list result"

datatype relation_error = Thrown js_error | TypeError

type_synonym 'a outcome = "relation_error + 'a"

text \<open>
  The column metadata of the data room as \<open>getColumns\<close> (tableMetaRepo.ts) builds it,
  and a relation as \<open>inferRelations\<close> builds it.
\<close>

record DataColumn =
  dc_name :: string
  dc_dataType :: string
  dc_nullable :: bool
  dc_isPrimaryKey :: bool
  dc_isUnique :: bool

record Relation =
  rel_direction :: string
  rel_fromTable :: string
  rel_fromColumn :: string
  rel_toTable :: string
  rel_toColumn :: string
  rel_joinExample :: string

definition MIN_FK_COVERAGE :: rat where
  "MIN_FK_COVERAGE = 8 / 10"

text \<open>\<open>Q\<close>, the quoting of an identifier.\<close>

definition Q_ident :: "string \<Rightarrow> string" where
  "Q_ident s = [CHR 0x22] @ concat (map (\<lambda>c. if c = CHR 0x22 then [c, c] else [c]) s) @ [CHR 0x22]"

definition startsWith :: "string \<Rightarrow> string \<Rightarrow> bool" where
  "startsWith s p \<longleftrightarrow> take (length p) s = p"

definition singular :: "string \<Rightarrow> string" where
  "singular s =
     (if endsWith s ''ies'' then dropLast 3 s @ ''y''
      else if endsWith s ''ses'' then dropLast 2 s
      else if endsWith s ''s'' then dropLast 1 s
      else s)"

text \<open>
  \<open>cols.find(c => c.pk === 1)?.name ?? cols.find(c => c.name.toLowerCase() === "id")?.name\<close>
\<close>

definition declared_key :: "PragmaTableInfoRow list \<Rightarrow> string option" where
  "declared_key cols =
     (case find (\<lambda>c. ti_pk c = 1) cols of
        Some c \<Rightarrow> Some (ti_name c)
      | None \<Rightarrow>
         (case find (\<lambda>c. toLowerCase (ti_name c) = ''id'') cols of
            Some c \<Rightarrow> Some (ti_name c)
          | None \<Rightarrow> None))"

text \<open>\<open>if (pk)\<close> on a string or \<open>null\<close>: the empty string counts as absent.\<close>

definition truthy :: "string option \<Rightarrow> bool" where
  "truthy s \<longleftrightarrow> s \<noteq> None \<and> s \<noteq> Some []"

text \<open>\<open>info[0]?.name\<close>, if it is a string that is not empty.\<close>

definition first_index_column :: "PragmaIndexInfoRow list \<Rightarrow> string option" where
  "first_index_column info =
     (case info of
        [] \<Rightarrow> None
      | i # _ \<Rightarrow> (case ii_name i of None \<Rightarrow> None | Some n \<Rightarrow> if n = [] then None else Some n))"

text \<open>
  The last resort of \<open>getParentKey\<close>: the first column whose count of distinct values
  that are not \<open>NULL\<close> is the number of rows of the table.
\<close>

fun full_column :: "relation_queries \<Rightarrow> string \<Rightarrow> int \<Rightarrow> PragmaTableInfoRow list \<Rightarrow> string option outcome" where
  "full_column rq table tot [] = Inr None"
| "full_column rq table tot (c # cs) =
     (case rq_distinct rq table (ti_name c) of
        Inl e \<Rightarrow> Inl (Thrown e)
      | Inr [] \<Rightarrow> Inl TypeError
      | Inr (r # _) \<Rightarrow> if dst_d r = tot then Inr (Some (ti_name c)) else full_column rq table tot cs)"

definition scanned_key :: "relation_queries \<Rightarrow> string \<Rightarrow> PragmaTableInfoRow list \<Rightarrow> string option outcome" where
  "scanned_key rq table cols =
     (case rq_count rq table of
        Inl e \<Rightarrow> Inl (Thrown e)
      | Inr [] \<Rightarrow> Inl TypeError
      | Inr (r # _) \<Rightarrow> if cnt_c r > 0 then full_column rq table (cnt_c r) cols else Inr None)"

text \<open>
  \<open>getParentKey\<close>: the declared primary key, else a column named \<open>id\<close>, else the first
  column of the first unique index, else a column found by the scan; \<open>null\<close> is
  \<open>None\<close>.  A key that is the empty string is passed over by \<open>if (pk)\<close>.
\<close>

definition getParentKey :: "store \<Rightarrow> relation_queries \<Rightarrow> string \<Rightarrow> string option outcome" where
  "getParentKey st rq table =
     (case q_table_info st table of
        Inl e \<Rightarrow> Inl (Thrown e)
      | Inr cols \<Rightarrow>
         if truthy (declared_key cols) then Inr (declared_key cols)
         else
           (case q_index_list st table of
              Inl e \<Rightarrow> Inl (Thrown e)
            | Inr idx \<Rightarrow>
               (case find (\<lambda>i. il_unique i = 1) idx of
                  None \<Rightarrow> scanned_key rq table cols
                | Some u \<Rightarrow>
                   (case q_index_info st (il_name u) of
                      Inl e \<Rightarrow> Inl (Thrown e)
                    | Inr info \<Rightarrow>
                       (case first_index_column info of
                          Some n \<Rightarrow> Inr (Some n)
                        | None \<Rightarrow> scanned_key rq table cols)))))"

text \<open>\<open>/_id$/i.test(s)\<close> and \<open>s.replace(/_id$/i, "")\<close>\<close>

definition has_id_suffix :: "string \<Rightarrow> bool" where
  "has_id_suffix s \<longleftrightarrow>
     (let n = length s in n \<ge> 3 \<and> s ! (n - 3) = CHR ''_'' \<and> is_id_ci (drop (n - 2) s))"

definition strip_id_suffix :: "string \<Rightarrow> string" where
  "strip_id_suffix s = (if has_id_suffix s then take (length s - 3) s else s)"

definition relation_base :: "string \<Rightarrow> string" where
  "relation_base cname = strip_id_suffix (toLowerCase cname)"

text \<open>The candidate parents of a column: \<open>allTables.filter(...)\<close>, so in the order of \<open>allTables\<close>.\<close>

definition candidates :: "string \<Rightarrow> string \<Rightarrow> string list \<Rightarrow> string list" where
  "candidates table base allTables =
     filter (\<lambda>t. let tl = toLowerCase t in
                  tl \<noteq> toLowerCase table
                  \<and> (tl = base \<or> tl = base @ ''s'' \<or> tl = base @ ''es''
                     \<or> singular tl = base \<or> startsWith tl base \<or> endsWith tl base))
            allTables"

text \<open>
  \<open>total ? matched / total : 0\<close>; a \<open>NULL\<close> sum counts as 0 in the division.  The
  ratio is kept as a rational number; two ratios of row counts below \<open>2^26\<close> compare as
  their doubles do, and so does a ratio with 0.8.
\<close>

definition cov_of :: "coverage_row \<Rightarrow> rat" where
  "cov_of r =
     (case r_total r of
        None \<Rightarrow> 0
      | Some t \<Rightarrow> if t = 0 then 0
                  else of_int (case r_matched r of None \<Rightarrow> 0 | Some m \<Rightarrow> m) / of_int t)"

text \<open>
  What is found out about one candidate parent: its key and the coverage of the
  column under this key; \<open>None\<close> when the parent has no key (\<open>continue\<close>).
\<close>

definition measure_parent ::
  "store \<Rightarrow> relation_queries \<Rightarrow> string \<Rightarrow> string \<Rightarrow> string \<Rightarrow> (string \<times> rat) option outcome" where
  "measure_parent st rq table cname parent =
     (case getParentKey st rq parent of
        Inl e \<Rightarrow> Inl e
      | Inr key \<Rightarrow>
          if \<not> truthy key then Inr None
          else
            (case rq_coverage rq table cname parent (the key) of
               Inl e \<Rightarrow> Inl (Thrown e)
             | Inr [] \<Rightarrow> Inl TypeError
             | Inr (r # _) \<Rightarrow> Inr (Some (the key, cov_of r))))"

record best_parent =
  b_parent :: string
  b_pk :: string
  b_coverage :: rat

text \<open>
  The loop over the candidate parents of one column.  Every candidate is measured;
  \<open>best\<close> is replaced by a candidate that meets \<open>MIN_FK_COVERAGE\<close> when there is no
  best yet or when its coverage is greater than the coverage of the best.
\<close>

fun scan_candidates ::
  "store \<Rightarrow> relation_queries \<Rightarrow> string \<Rightarrow> string \<Rightarrow> string list \<Rightarrow> best_parent option
     \<Rightarrow> best_parent option outcome" where
  "scan_candidates st rq table cname [] best = Inr best"
| "scan_candidates st rq table cname (parent # ps) best =
     (case measure_parent st rq table cname parent of
        Inl e \<Rightarrow> Inl e
      | Inr None \<Rightarrow> scan_candidates st rq table cname ps best
      | Inr (Some (pk, cov)) \<Rightarrow>
          scan_candidates st rq table cname ps
            (if cov \<ge> MIN_FK_COVERAGE
                \<and> (case best of None \<Rightarrow> True | Some b \<Rightarrow> cov > b_coverage b)
             then Some \<lparr>b_parent = parent, b_pk = pk, b_coverage = cov\<rparr>
             else best))"

definition join_example :: "string \<Rightarrow> string \<Rightarrow> string \<Rightarrow> string \<Rightarrow> string" where
  "join_example table cname parent pk =
     ''SELECT * '' @ [CHR 0x0A] @ replicate 24 (CHR '' '') @ ''FROM '' @ Q_ident table @ '' c ''
     @ [CHR 0x0A] @ replicate 24 (CHR '' '') @ ''JOIN '' @ Q_ident parent @ '' p ''
     @ [CHR 0x0A] @ replicate 26 (CHR '' '') @ ''ON c.'' @ Q_ident cname @ '' = p.'' @ Q_ident pk @ '';''"

definition relation_of :: "string \<Rightarrow> string \<Rightarrow> best_parent \<Rightarrow> Relation" where
  "relation_of table cname b =
     \<lparr>rel_direction = ''child'', rel_fromTable = table, rel_fromColumn = cname,
      rel_toTable = b_parent b, rel_toColumn = b_pk b,
      rel_joinExample = join_example table cname (b_parent b) (b_pk b)\<rparr>"

text \<open>The loop over the columns whose name ends with \<open>_id\<close>.\<close>

fun scan_fk_columns ::
  "store \<Rightarrow> relation_queries \<Rightarrow> string \<Rightarrow> string list \<Rightarrow> DataColumn list \<Rightarrow> Relation list
     \<Rightarrow> Relation list outcome" where
  "scan_fk_columns st rq table allTables [] relations = Inr relations"
| "scan_fk_columns st rq table allTables (col # cols) relations =
     (case scan_candidates st rq table (dc_name col)
             (candidates table (relation_base (dc_name col)) allTables) None of
        Inl e \<Rightarrow> Inl e
      | Inr None \<Rightarrow> scan_fk_columns st rq table allTables cols relations
      | Inr (Some b) \<Rightarrow>
          scan_fk_columns st rq table allTables cols (relations @ [relation_of table (dc_name col) b]))"

definition fkCols :: "DataColumn list \<Rightarrow> DataColumn list" where
  "fkCols columns = filter (\<lambda>c. has_id_suffix (dc_name c)) columns"

definition inferRelations ::
  "store \<Rightarrow> relation_queries \<Rightarrow> string \<Rightarrow> DataColumn list \<Rightarrow> string list \<Rightarrow> Relation list outcome" where
  "inferRelations st rq table columns allTables =
     (if length (fkCols columns) = 0 then Inr []
      else scan_fk_columns st rq table allTables (fkCols columns) [])"

text \<open>
  Notions used to state what \<open>inferRelations\<close> has chosen.  The coverage of a
  candidate parent is what \<open>measure_parent\<close> found for it, if it has a key.  A
  relation is the best one of its column when its target is a candidate parent of
  the column, the coverage of the target meets \<open>MIN_FK_COVERAGE\<close>, no candidate has
  a greater coverage, and every candidate that comes before the target in
  \<open>allTables\<close> has a smaller coverage.
\<close>

definition candidate_coverage ::
  "store \<Rightarrow> relation_queries \<Rightarrow> string \<Rightarrow> string \<Rightarrow> string \<Rightarrow> rat option" where
  "candidate_coverage st rq table cname parent =
     (case measure_parent st rq table cname parent of
        Inl _ \<Rightarrow> None
      | Inr None \<Rightarrow> None
      | Inr (Some (pk, c)) \<Rightarrow> Some c)"

definition meets_threshold :: "store \<Rightarrow> relation_queries \<Rightarrow> string \<Rightarrow> string \<Rightarrow> string \<Rightarrow> bool" where
  "meets_threshold st rq table cname parent =
     (case candidate_coverage st rq table cname parent of
        None \<Rightarrow> False
      | Some c \<Rightarrow> c \<ge> MIN_FK_COVERAGE)"

definition best_relation :: "store \<Rightarrow> relation_queries \<Rightarrow> string list \<Rightarrow> Relation \<Rightarrow> bool" where
  "best_relation st rq allTables r =
     (let cs = candidates (rel_fromTable r) (relation_base (rel_fromColumn r)) allTables;
          cov = candidate_coverage st rq (rel_fromTable r) (rel_fromColumn r)
      in rel_toTable r \<in> set cs
         \<and> (case measure_parent st rq (rel_fromTable r) (rel_fromColumn r) (rel_toTable r) of
              Inl _ \<Rightarrow> False
            | Inr None \<Rightarrow> False
            | Inr (Some (pk, c)) \<Rightarrow>
                rel_toColumn r = pk \<and> c \<ge> MIN_FK_COVERAGE
                \<and> list_all (\<lambda>q. case cov q of None \<Rightarrow> True | Some c' \<Rightarrow> c' \<le> c) cs
                \<and> list_all (\<lambda>q. case cov q of None \<Rightarrow> True | Some c' \<Rightarrow> c' < c)
                     (takeWhile (\<lambda>q. q \<noteq> rel_toTable r) cs)))"

text \<open>
  A column whose candidates include one that meets the threshold has a relation in the
  result.
\<close>

definition column_served ::
  "store \<Rightarrow> relation_queries \<Rightarrow> string \<Rightarrow> string list \<Rightarrow> Relation list \<Rightarrow> string \<Rightarrow> bool" where
  "column_served st rq table allTables rels cname \<longleftrightarrow>
     list_ex (meets_threshold st rq table cname) (candidates table (relation_base cname) allTables)
       \<longrightarrow> cname \<in> set (map rel_fromColumn rels)"

text \<open>
  The state of the loop over the candidates after the candidates \<open>pre\<close>: without a
  best, none of them meets the threshold; a best is one of them, with its key and
  coverage as measured, it meets the threshold, none of them has a greater coverage,
  and those before it have a smaller one.
\<close>

definition chosen_among ::
  "store \<Rightarrow> relation_queries \<Rightarrow> string \<Rightarrow> string \<Rightarrow> string list \<Rightarrow> best_parent option \<Rightarrow> bool" where
  "chosen_among st rq table cname pre best =
     (case best of
        None \<Rightarrow> \<forall>q \<in> set pre. \<not> meets_threshold st rq table cname q
      | Some b \<Rightarrow>
          b_parent b \<in> set pre
          \<and> measure_parent st rq table cname (b_parent b) = Inr (Some (b_pk b, b_coverage b))
          \<and> b_coverage b \<ge> MIN_FK_COVERAGE
          \<and> (\<forall>q \<in> set pre. \<forall>c'. candidate_coverage st rq table cname q = Some c' \<longrightarrow> c' \<le> b_coverage b)
          \<and> (\<forall>q \<in> set (takeWhile (\<lambda>q. q \<noteq> b_parent b) pre).
                \<forall>c'. candidate_coverage st rq table cname q = Some c' \<longrightarrow> c' < b_coverage b))"

section \<open>The coverage query read as SQL\<close>

text \<open>
  The statement of \<open>inferFkEdges\<close>,
  \<^verbatim>\<open>SELECT SUM(CASE WHEN p.pk IS NOT NULL THEN 1 ELSE 0 END) AS matched, COUNT(c.col) AS total
      FROM child c LEFT JOIN parent p ON c.col = p.pk WHERE c.col IS NOT NULL\<close>,
  over tables given by their rows.  A row maps a column name to its value, \<open>None\<close> for
  \<open>NULL\<close>; \<open>eqv\<close> is the comparison \<open>=\<close> of the database on values that are not
  \<open>NULL\<close>, left open.  Column names are resolved without regard to the case of the
  letters A-Z.  The joined rows are, for each child row whose \<open>col\<close> is not \<open>NULL\<close>,
  one row per parent row with an equal key, or one row without parent if there is
  none; \<open>SUM\<close> over no row is \<open>NULL\<close>.
\<close>

record 'v sql_table =
  tbl_info :: "PragmaTableInfoRow list"
  tbl_rows :: "(string \<rightharpoonup> 'v) list"

type_synonym 'v database = "string \<rightharpoonup> 'v sql_table"

definition ascii_lower :: "char \<Rightarrow> char" where
  "ascii_lower c = (let n = (of_char c :: nat) in if 65 \<le> n \<and> n \<le> 90 then char_of (n + 32) else c)"

definition resolve_column :: "'v sql_table \<Rightarrow> string \<Rightarrow> string option" where
  "resolve_column t n =
     (case find (\<lambda>c. map ascii_lower (ti_name c) = map ascii_lower n) (tbl_info t) of
        None \<Rightarrow> None
      | Some c \<Rightarrow> Some (ti_name c))"

text \<open>The joined rows as pairs of the child value and the parent key, if any.\<close>

definition left_join :: "('v \<Rightarrow> 'v \<Rightarrow> bool) \<Rightarrow> 'v option list \<Rightarrow> 'v option list \<Rightarrow> ('v \<times> 'v option) list" where
  "left_join eqv cvals pkeys =
     concat (map (\<lambda>cv. case cv of
                          None \<Rightarrow> []
                        | Some v \<Rightarrow>
                            (let ms = filter (\<lambda>k. case k of None \<Rightarrow> False | Some kv \<Rightarrow> eqv v kv) pkeys
                             in if ms = [] then [(v, None)] else map (\<lambda>k. (v, k)) ms)) cvals)"

definition sql_coverage ::
  "('v \<Rightarrow> 'v \<Rightarrow> bool) \<Rightarrow> 'v database \<Rightarrow> string \<Rightarrow> string \<Rightarrow> string \<Rightarrow> string \<Rightarrow> coverage_row list result" where
  "sql_coverage eqv db child cname parent pkCol =
     (case db child of
        None \<Rightarrow> Inl (StoreError (''no such table: '' @ child))
      | Some ct \<Rightarrow>
         (case db parent of
            None \<Rightarrow> Inl (StoreError (''no such table: '' @ parent))
          | Some pt \<Rightarrow>
             (case resolve_column pt pkCol of
                None \<Rightarrow> Inl (StoreError (''no such column: p.'' @ pkCol))
              | Some pk \<Rightarrow>
                 (case resolve_column ct cname of
                    None \<Rightarrow> Inl (StoreError (''no such column: c.'' @ cname))
                  | Some cc \<Rightarrow>
                     (let joined = left_join eqv (map (\<lambda>r. r cc) (tbl_rows ct)) (map (\<lambda>r. r pk) (tbl_rows pt));
                          matched = length (filter (\<lambda>(v, k). k \<noteq> None) joined);
                          total = length joined
                      in Inr [\<lparr>r_matched = (if joined = [] then None else Some (int matched)),
                               r_total = Some (int total)\<rparr>])))))"

text \<open>\<open>PRAGMA table_info\<close> of a table that does not exist returns no row.\<close>

definition sql_table_info :: "'v database \<Rightarrow> string \<Rightarrow> PragmaTableInfoRow list result" where
  "sql_table_info db t = (case db t of None \<Rightarrow> Inr [] | Some tb \<Rightarrow> Inr (tbl_info tb))"

section \<open>What a successful pass has done\<close>

text \<open>
  Notions used to state what \<open>inferFkEdges\<close> has done when it returns.  A candidate
  parent is rejected when its two statements succeeded and its coverage was not
  accepted.  \<open>probes_ok\<close> says that the statements sent for the candidates of one
  column all succeeded: each one in turn, up to the first that is accepted.
  \<open>column_ok\<close> and \<open>table_ok\<close> say the same of all statements sent for a column and
  for a child table.
\<close>

definition rejected :: "store \<Rightarrow> string \<Rightarrow> string \<Rightarrow> string \<Rightarrow> bool" where
  "rejected st child cname q =
     (case probe st child cname q of Inl _ \<Rightarrow> False | Inr (m, t) \<Rightarrow> \<not> accepted m t)"

fun probes_ok :: "store \<Rightarrow> string \<Rightarrow> string \<Rightarrow> string list \<Rightarrow> bool" where
  "probes_ok st child cname [] = True"
| "probes_ok st child cname (p # ps) =
     (case probe st child cname p of
        Inl _ \<Rightarrow> False
      | Inr (m, t) \<Rightarrow> accepted m t \<or> probes_ok st child cname ps)"

definition column_ok :: "store \<Rightarrow> string list \<Rightarrow> string \<Rightarrow> string \<Rightarrow> bool" where
  "column_ok st tables child cname =
     (case match_id_suffix cname of
        None \<Rightarrow> True
      | Some m1 \<Rightarrow> is_id_ci cname \<or> base_name m1 = []
                   \<or> probes_ok st child cname (parents_of tables (base_name m1)))"

definition table_ok :: "store \<Rightarrow> string list \<Rightarrow> string \<Rightarrow> bool" where
  "table_ok st tables t =
     (case q_table_info st t of
        Inl _ \<Rightarrow> False
      | Inr cols \<Rightarrow> list_all (column_ok st tables t) (map ti_name cols))"

text \<open>
  An edge as the loop pushes it: its column matches the name pattern and is not a
  bare \<open>id\<close>, its target is a candidate parent of the column, every candidate before
  the target was rejected, and the target's own counts were accepted and are the
  counts of the edge.
\<close>

definition accepted_edge :: "store \<Rightarrow> string list \<Rightarrow> FkEdge \<Rightarrow> bool" where
  "accepted_edge st tables e =
     (case match_id_suffix (e_col e) of
        None \<Rightarrow> False
      | Some m1 \<Rightarrow>
          \<not> is_id_ci (e_col e) \<and> base_name m1 \<noteq> []
          \<and> e_target e \<in> set (parents_of tables (base_name m1))
          \<and> list_all (rejected st (e_source e) (e_col e))
                (takeWhile (\<lambda>p. p \<noteq> e_target e) (parents_of tables (base_name m1)))
          \<and> probe st (e_source e) (e_col e) (e_target e) = Inr (e_matched e, e_total e)
          \<and> accepted (e_matched e) (e_total e)
          \<and> e_coverage e = of_int (e_matched e) / of_int (e_total e))"

text \<open>The column an edge starts from: child table and column name.\<close>

definition edge_key :: "FkEdge \<Rightarrow> string \<times> string" where
  "edge_key e = (e_source e, e_col e)"

text \<open>\<open>PRAGMA table_info\<close> lists no column name twice, for each of the tables.\<close>

definition columns_distinct :: "store \<Rightarrow> string list \<Rightarrow> bool" where
  "columns_distinct st ts \<longleftrightarrow>
     list_all (\<lambda>t. case q_table_info st t of Inl _ \<Rightarrow> True | Inr cols \<Rightarrow> distinct (map ti_name cols)) ts"






text \<open>
  The name patterns in words.  \<open>id_suffix_ci\<close>: the name ends with \<open>id\<close> in any
  letter case.  \<open>claimed_fk_name\<close>: the pattern as the specification words it, a
  name that ends with \<open>_id\<close> in any letter case, or with \<open>Id\<close> or \<open>ID\<close>.
\<close>

definition id_suffix_ci :: "string \<Rightarrow> bool" where
  "id_suffix_ci c \<longleftrightarrow> 2 \<le> length c \<and> is_id_ci (drop (length c - 2) c)"

definition claimed_fk_name :: "string \<Rightarrow> bool" where
  "claimed_fk_name c \<longleftrightarrow> endsWith (toLowerCase c) ''_id'' \<or> endsWith c ''Id'' \<or> endsWith c ''ID''"

section \<open>The values a profiler sees\<close>

text \<open>
  The words of the specification for the constraint profilers: the trimmed values of
  a column, and those of them that are not empty.  For \<open>inferSchema\<close> an absent
  property counts as an empty value; \<open>inferColumns\<close> leaves \<open>undefined\<close> out before it
  counts, and takes \<open>null\<close> for empty.
\<close>

definition nonempty_cells :: "row list \<Rightarrow> string \<Rightarrow> string list" where
  "nonempty_cells rows h = filter (\<lambda>c. c \<noteq> []) (map (\<lambda>r. cell r h) rows)"

definition csv_text :: "js_value \<Rightarrow> string" where
  "csv_text v = (if v = JNull then [] else trim (js_String v))"

definition csv_cells :: "js_object list \<Rightarrow> string \<Rightarrow> string list" where
  "csv_cells rows h = map csv_text (filter (\<lambda>v. v \<noteq> JUndefined) (map (\<lambda>r. property r h) rows))"

definition csv_nonempty :: "js_object list \<Rightarrow> string \<Rightarrow> string list" where
  "csv_nonempty rows h = filter (\<lambda>c. c \<noteq> []) (csv_cells rows h)"

section \<open>Example data\<close>

text \<open>A column of a table as \<open>PRAGMA table_info\<close> lists it.\<close>

definition table_column :: "int \<Rightarrow> string \<Rightarrow> string \<Rightarrow> int \<Rightarrow> int \<Rightarrow> PragmaTableInfoRow" where
  "table_column cid n ty nn k =
     \<lparr>ti_cid = cid, ti_name = n, ti_type = ty, ti_notnull = nn, ti_dflt_value = None, ti_pk = k\<rparr>"

text \<open>A single-column CSV file with the values \<open>1, 2, 3\<close> and an empty one (Scenario A).\<close>

definition scenario_A :: "string list" where
  "scenario_A = [''1'', ''2'', ''3'', []]"

text \<open>A CSV file whose column \<open>id\<close> repeats a value.\<close>

definition repeated_id_rows :: "js_object list" where
  "repeated_id_rows = [[(''id'', JStr ''1'')], [(''id'', JStr ''1'')]]"

text \<open>Scenario A as the rows of a one-column file with the header \<open>v\<close>.\<close>

definition scenario_A_objects :: "js_object list" where
  "scenario_A_objects = map (\<lambda>v. [(''v'', JStr v)]) scenario_A"

definition scenario_A_rows :: "row list" where
  "scenario_A_rows = map (\<lambda>v. [''v'' \<mapsto> v]) scenario_A"

text \<open>A file for the table \<open>users\<close> with two key-like columns, \<open>users_id\<close> before \<open>id\<close>.\<close>

definition two_keys_rows :: "row list" where
  "two_keys_rows = [[''users_id'' \<mapsto> ''a'', ''id'' \<mapsto> ''1''], [''users_id'' \<mapsto> ''b'', ''id'' \<mapsto> ''2'']]"


text \<open>A flag column: nineteen boolean tokens and the integer 5.\<close>

definition flag_rows :: "row list" where
  "flag_rows = map (\<lambda>v. [''f'' \<mapsto> v])
     [''1'', ''0'', ''1'', ''1'', ''0'', ''1'', ''0'', ''1'', ''1'', ''0'',
      ''1'', ''0'', ''0'', ''1'', ''1'', ''0'', ''1'', ''1'', ''0'', ''5'']"

text \<open>The profile of an integer column, and of a flag column.\<close>

definition integer_profile :: InferredCol where
  "integer_profile = \<lparr>ic_name = ''n'', ic_affinity = INTEGER, ic_notNull = True, ic_unique = False,
                       ic_isBool = False, ic_isDateLike = False\<rparr>"

definition flag_profile :: InferredCol where
  "flag_profile = \<lparr>ic_name = ''f'', ic_affinity = INTEGER, ic_notNull = True, ic_unique = False,
                    ic_isBool = True, ic_isDateLike = False\<rparr>"

text \<open>
  A store over the tables of a database that has no index besides the primary keys:
  \<open>names\<close> is what \<open>listTables\<close> returns, the two index statements return no row.
\<close>

definition sql_store :: "('v \<Rightarrow> 'v \<Rightarrow> bool) \<Rightarrow> 'v database \<Rightarrow> string list \<Rightarrow> store" where
  "sql_store eqv db names =
     \<lparr>q_listTables = Inr names, q_table_info = sql_table_info db,
      q_index_list = (\<lambda>_. Inr []), q_index_info = (\<lambda>_. Inr []),
      q_coverage = sql_coverage eqv db\<rparr>"

text \<open>A table with an integer key \<open>id\<close> holding the given keys.\<close>

definition id_table :: "int list \<Rightarrow> int sql_table" where
  "id_table ks =
     \<lparr>tbl_info = [table_column 0 ''id'' ''INTEGER'' 1 1],
      tbl_rows = map (\<lambda>k. [''id'' \<mapsto> k]) ks\<rparr>"

text \<open>
  A shop: five orders, each with a user and a product; the tables \<open>user\<close> (four
  rows) and \<open>users\<close> (five rows) both exist, and \<open>products\<close> has three rows.
\<close>

definition shop_db :: "int database" where
  "shop_db =
     [''orders'' \<mapsto>
        \<lparr>tbl_info = [table_column 0 ''id'' ''INTEGER'' 1 1, table_column 1 ''user_id'' ''INTEGER'' 0 0,
                     table_column 2 ''product_id'' ''INTEGER'' 0 0],
         tbl_rows = [[''id'' \<mapsto> 1, ''user_id'' \<mapsto> 1, ''product_id'' \<mapsto> 10],
                     [''id'' \<mapsto> 2, ''user_id'' \<mapsto> 2, ''product_id'' \<mapsto> 10],
                     [''id'' \<mapsto> 3, ''user_id'' \<mapsto> 3, ''product_id'' \<mapsto> 11],
                     [''id'' \<mapsto> 4, ''user_id'' \<mapsto> 4, ''product_id'' \<mapsto> 11],
                     [''id'' \<mapsto> 5, ''user_id'' \<mapsto> 5, ''product_id'' \<mapsto> 12]]\<rparr>,
      ''products'' \<mapsto> id_table [10, 11, 12],
      ''user'' \<mapsto> id_table [1, 2, 3, 4],
      ''users'' \<mapsto> id_table [1, 2, 3, 4, 5]]"

definition shop_tables :: "string list" where
  "shop_tables = [''orders'', ''products'', ''user'', ''users'']"

definition shop_store :: store where
  "shop_store = sql_store (=) shop_db shop_tables"

text \<open>Scenario B: the roles 1, 2, 3 and four users with the roles 1, 1, 2, 3.\<close>

definition roles_db :: "int database" where
  "roles_db =
     [''roles'' \<mapsto> id_table [1, 2, 3],
      ''users'' \<mapsto>
        \<lparr>tbl_info = [table_column 0 ''id'' ''INTEGER'' 1 1, table_column 1 ''role_id'' ''INTEGER'' 0 0],
         tbl_rows = [[''id'' \<mapsto> 1, ''role_id'' \<mapsto> 1], [''id'' \<mapsto> 2, ''role_id'' \<mapsto> 1],
                     [''id'' \<mapsto> 3, ''role_id'' \<mapsto> 2], [''id'' \<mapsto> 4, ''role_id'' \<mapsto> 3]]\<rparr>]"

definition roles_store :: store where
  "roles_store = sql_store (=) roles_db [''roles'', ''users'']"

text \<open>Items with a flag \<open>valid\<close> (0 or 1), beside a table \<open>vals\<close> with the keys 0, 1, 2.\<close>

definition items_db :: "int database" where
  "items_db =
     [''items'' \<mapsto>
        \<lparr>tbl_info = [table_column 0 ''id'' ''INTEGER'' 1 1, table_column 1 ''valid'' ''INTEGER'' 0 0],
         tbl_rows = [[''id'' \<mapsto> 1, ''valid'' \<mapsto> 1], [''id'' \<mapsto> 2, ''valid'' \<mapsto> 0],
                     [''id'' \<mapsto> 3, ''valid'' \<mapsto> 1]]\<rparr>,
      ''vals'' \<mapsto> id_table [0, 1, 2]]"

definition items_store :: store where
  "items_store = sql_store (=) items_db [''items'', ''vals'']"

text \<open>
  Orders that refer to a table \<open>users\<close> which has neither a declared primary key nor a
  column \<open>id\<close>: the coverage query names the missing column \<open>id\<close>.
\<close>

definition nokey_db :: "int database" where
  "nokey_db =
     [''orders'' \<mapsto>
        \<lparr>tbl_info = [table_column 0 ''id'' ''INTEGER'' 1 1, table_column 1 ''user_id'' ''INTEGER'' 0 0],
         tbl_rows = [[''id'' \<mapsto> 1, ''user_id'' \<mapsto> 7]]\<rparr>,
      ''users'' \<mapsto>
        \<lparr>tbl_info = [table_column 0 ''uid'' ''INTEGER'' 0 0],
         tbl_rows = [[''uid'' \<mapsto> 7]]\<rparr>]"

definition nokey_store :: store where
  "nokey_store = sql_store (=) nokey_db [''orders'', ''users'']"


text \<open>The metadata of Scenario B as \<open>getTablesMeta\<close> returns it.\<close>

definition roles_metas :: "TableMeta list" where
  "roles_metas =
     [\<lparr>tm_name = ''roles'',
       tm_columns = [\<lparr>cm_name = ''id'', cm_dataType = ''INTEGER'', cm_uniqueNoNull = True, cm_isPk = True\<rparr>]\<rparr>,
      \<lparr>tm_name = ''users'',
       tm_columns = [\<lparr>cm_name = ''id'', cm_dataType = ''INTEGER'', cm_uniqueNoNull = True, cm_isPk = True\<rparr>,
                     \<lparr>cm_name = ''role_id'', cm_dataType = ''INTEGER'', cm_uniqueNoNull = False,
                       cm_isPk = False\<rparr>]\<rparr>]"

text \<open>The edges and the foreign key of the examples.\<close>

definition roles_edge :: FkEdge where
  "roles_edge = \<lparr>e_source = ''users'', e_target = ''roles'', e_col = ''role_id'',
                  e_coverage = 1, e_matched = 4, e_total = 4\<rparr>"

definition product_edge :: FkEdge where
  "product_edge = \<lparr>e_source = ''orders'', e_target = ''products'', e_col = ''product_id'',
                    e_coverage = 1, e_matched = 5, e_total = 5\<rparr>"

definition user_edge :: FkEdge where
  "user_edge = \<lparr>e_source = ''orders'', e_target = ''user'', e_col = ''user_id'',
                 e_coverage = 4 / 5, e_matched = 4, e_total = 5\<rparr>"

definition valid_edge :: FkEdge where
  "valid_edge = \<lparr>e_source = ''items'', e_target = ''vals'', e_col = ''valid'',
                  e_coverage = 1, e_matched = 3, e_total = 3\<rparr>"

definition roles_fk :: FKTuple where
  "roles_fk = \<lparr>fromTable = ''users'', fromColumn = ''role_id'', toTable = ''roles'', toColumn = ''id''\<rparr>"

text \<open>
  The three further statements of the data room over a database: the number of rows
  of a table, the number of distinct values of a column that are not \<open>NULL\<close>, and
  the coverage query, whose comparison of the values cast to text is given by \<open>eqv\<close>.
\<close>

definition sql_count :: "'v database \<Rightarrow> string \<Rightarrow> count_row list result" where
  "sql_count db t =
     (case db t of
        None \<Rightarrow> Inl (StoreError (''no such table: '' @ t))
      | Some tb \<Rightarrow> Inr [\<lparr>cnt_c = int (length (tbl_rows tb))\<rparr>])"

definition sql_distinct :: "'v database \<Rightarrow> string \<Rightarrow> string \<Rightarrow> distinct_row list result" where
  "sql_distinct db t c =
     (case db t of
        None \<Rightarrow> Inl (StoreError (''no such table: '' @ t))
      | Some tb \<Rightarrow>
         (case resolve_column tb c of
            None \<Rightarrow> Inl (StoreError (''no such column: '' @ c))
          | Some cc \<Rightarrow>
              Inr [\<lparr>dst_d = int (length (remdups (filter (\<lambda>v. v \<noteq> None) (map (\<lambda>r. r cc) (tbl_rows tb)))))\<rparr>]))"

definition sql_queries :: "('v \<Rightarrow> 'v \<Rightarrow> bool) \<Rightarrow> 'v database \<Rightarrow> relation_queries" where
  "sql_queries eqv db =
     \<lparr>rq_count = sql_count db, rq_distinct = sql_distinct db, rq_coverage = sql_coverage eqv db\<rparr>"

text \<open>
  The shop as the data room sees it: the columns of \<open>orders\<close>, and the relations of
  \<open>orders\<close>.  Integers are equal as text exactly when they are equal.
\<close>

definition shop_queries :: relation_queries where
  "shop_queries = sql_queries (=) shop_db"

definition orders_columns :: "DataColumn list" where
  "orders_columns =
     [\<lparr>dc_name = ''id'', dc_dataType = ''INTEGER'', dc_nullable = False, dc_isPrimaryKey = True,
       dc_isUnique = False\<rparr>,
      \<lparr>dc_name = ''user_id'', dc_dataType = ''INTEGER'', dc_nullable = True, dc_isPrimaryKey = False,
       dc_isUnique = False\<rparr>,
      \<lparr>dc_name = ''product_id'', dc_dataType = ''INTEGER'', dc_nullable = True, dc_isPrimaryKey = False,
       dc_isUnique = False\<rparr>]"

definition users_relation :: Relation where
  "users_relation =
     \<lparr>rel_direction = ''child'', rel_fromTable = ''orders'', rel_fromColumn = ''user_id'',
      rel_toTable = ''users'', rel_toColumn = ''id'',
      rel_joinExample = join_example ''orders'' ''user_id'' ''users'' ''id''\<rparr>"

definition products_relation :: Relation where
  "products_relation =
     \<lparr>rel_direction = ''child'', rel_fromTable = ''orders'', rel_fromColumn = ''product_id'',
      rel_toTable = ''products'', rel_toColumn = ''id'',
      rel_joinExample = join_example ''orders'' ''product_id'' ''products'' ''id''\<rparr>"

text \<open>The data room over the orders whose parent \<open>users\<close> has neither a primary key nor an \<open>id\<close>.\<close>

definition nokey_queries :: relation_queries where
  "nokey_queries = sql_queries (=) nokey_db"

definition user_id_column :: DataColumn where
  "user_id_column =
     \<lparr>dc_name = ''user_id'', dc_dataType = ''INTEGER'', dc_nullable = True, dc_isPrimaryKey = False,
      dc_isUnique = False\<rparr>"

definition uid_relation :: Relation where
  "uid_relation =
     \<lparr>rel_direction = ''child'', rel_fromTable = ''orders'', rel_fromColumn = ''user_id'',
      rel_toTable = ''users'', rel_toColumn = ''uid'',
      rel_joinExample = join_example ''orders'' ''user_id'' ''users'' ''uid''\<rparr>"

section \<open>Facts about insertion-ordered sets\<close>

lemma set_add_distinct: "distinct xs \<Longrightarrow> distinct (set_add x xs)"
  by (simp add: set_add_def)

lemma set_add_set: "set (set_add x xs) = insert x (set xs)"
  by (auto simp: set_add_def)

lemma foldl_set_add_distinct:
  "distinct acc \<Longrightarrow> distinct (foldl (\<lambda>acc x. set_add x acc) acc xs)"
  by (induction xs arbitrary: acc) (simp_all add: set_add_distinct)

lemma foldl_set_add_set:
  "set (foldl (\<lambda>acc x. set_add x acc) acc xs) = set acc \<union> set xs"
  by (induction xs arbitrary: acc) (auto simp: set_add_set)

lemma set_of_list_distinct: "distinct (set_of_list xs)"
  by (simp add: set_of_list_def foldl_set_add_distinct)

lemma set_of_list_set: "set (set_of_list xs) = set xs"
  by (simp add: set_of_list_def foldl_set_add_set)

lemma bigrams_distinct: "distinct (bigrams s)"
  by (simp add: bigrams_def set_of_list_distinct)

lemma inter_count_card:
  assumes "distinct xs"
  shows "length (filter (\<lambda>x. x \<in> set ys) xs) = card (set xs \<inter> set ys)"
proof -
  have "distinct (filter (\<lambda>x. x \<in> set ys) xs)"
    using assms by simp
  then have "card (set (filter (\<lambda>x. x \<in> set ys) xs)) = length (filter (\<lambda>x. x \<in> set ys) xs)"
    by (rule distinct_card)
  moreover have "set (filter (\<lambda>x. x \<in> set ys) xs) = set xs \<inter> set ys"
    by auto
  ultimately show ?thesis by simp
qed

lemma inter_count_sym:
  assumes "distinct xs" and "distinct ys"
  shows "length (filter (\<lambda>x. x \<in> set ys) xs) = length (filter (\<lambda>y. y \<in> set xs) ys)"
  using assms by (simp add: inter_count_card Int_commute)

section \<open>Symmetry of the similarity score\<close>

text \<open>
  Claim C8.  The bigram Dice similarity is symmetric, for \<open>diceSim\<close> of the metadata
  service and for its copy \<open>dice\<close> of the badge heuristics: swapping the two strings
  gives the same score, for all strings.
\<close>

theorem diceSim_symmetric: "diceSim a b = diceSim b a \<and> dice a b = dice b a"
proof -
  have "length (filter (\<lambda>x. x \<in> set (bigrams b)) (bigrams a))
      = length (filter (\<lambda>x. x \<in> set (bigrams a)) (bigrams b))"
    by (rule inter_count_sym) (rule bigrams_distinct)+
  then show ?thesis
    by (simp add: diceSim_def dice_def Let_def add.commute)
qed

section \<open>Evaluation rules\<close>

lemmas str_eval = toLowerCase_def lower_char_def char_of_def bit_Suc_0_iff trim_def is_ws_def
  ws_chars_def is_lower_alnum_def endsWith_def dropLast_def is_line_terminator_def

lemmas rx_eval = intRe_def realRe_def dateRe_def d2_def d4_def d12_def digit_def is_digit_def
  Opt_def Plus_def Lit_def OneOf_def sign_def seqs_def

lemmas schema_eval = inferSchema_def profile_column_def scan_column_def scan_cell_def cell_def
  stats0_def decide_affinity_def pk_candidate_def idLike_def typical_id_def boolTrue_def
  boolFalse_def set_add_def

lemmas guess_eval = guessAffinity_def guess_step_def guess0_def js_String_def boolTrue_def
  boolFalse_def

lemmas import_eval = importCsv_def natural_pk_def column_values_def property_def is_notNull_def
  is_unique_def constraint_step_def set_of_list_def set_add_def safeIdent_def affinity_name_def

section \<open>Integer columns in the sampled affinity guess\<close>

text \<open>
  Claim C3.  Every value of \<open>1, 2, 3\<close> matches the integer pattern, yet
  \<open>guessAffinity\<close> of sqlite.ts returns \<open>TEXT\<close> for this column, with or without an
  empty value beside them: the value \<open>1\<close> is counted as a boolean token only, so the
  integer count stays below the count of non-empty values.
\<close>

theorem guessAffinity_integers_as_text:
  "list_all (matches intRe) [''1'', ''2'', ''3'']
   \<and> g_affinity (guessAffinity [JStr ''1'', JStr ''2'', JStr ''3'']) = TEXT
   \<and> g_affinity (guessAffinity (map JStr scenario_A)) = TEXT"
  by (simp add: guess_eval str_eval rx_eval scenario_A_def Let_def)

section \<open>The surrogate key of the CSV import\<close>

text \<open>
  Claim C10.  For a file whose header \<open>id\<close> repeats a value, \<open>importCsv\<close> finds no
  natural key and adds the surrogate column \<open>id\<close>, although \<open>id\<close> is among the input
  headers: the column definitions and the column list of the insert name \<open>id\<close> twice.
\<close>

theorem importCsv_surrogate_collides:
  "map_option ip_pk (importCsv ''t'' repeated_id_rows) = Some None
   \<and> map_option ip_colDefs (importCsv ''t'' repeated_id_rows)
       = Some [safeIdent ''id'' @ '' INTEGER PRIMARY KEY'', safeIdent ''id'' @ '' INTEGER NOT NULL'']
   \<and> map_option ip_insertCols (importCsv ''t'' repeated_id_rows) = Some [''id'', ''id'']
   \<and> ''id'' \<in> set (map fst (hd repeated_id_rows))"
  by (simp add: import_eval guess_eval str_eval rx_eval repeated_id_rows_def Let_def)

section \<open>Counters of the schema inference\<close>

lemma scan_cell_nonNull: "nonNull (scan_cell st c) = nonNull st + (if c = [] then 0 else 1)"
  by (simp add: scan_cell_def Let_def)

lemma scan_cell_asInt:
  "asInt (scan_cell st c) = asInt st + (if c \<noteq> [] \<and> matches intRe c then 1 else 0)"
  by (simp add: scan_cell_def Let_def)

lemma scan_cell_seen: "seen (scan_cell st c) = (if c = [] then seen st else set_add c (seen st))"
  by (simp add: scan_cell_def Let_def)

lemma foldl_nonNull:
  "nonNull (foldl scan_cell st cs) = nonNull st + length (filter (\<lambda>c. c \<noteq> []) cs)"
  by (induction cs arbitrary: st) (simp_all add: scan_cell_nonNull)

lemma foldl_asInt:
  "asInt (foldl scan_cell st cs) = asInt st + length (filter (\<lambda>c. c \<noteq> [] \<and> matches intRe c) cs)"
  by (induction cs arbitrary: st) (simp_all add: scan_cell_asInt)

lemma foldl_seen:
  "seen (foldl scan_cell st cs) = foldl (\<lambda>acc x. set_add x acc) (seen st) (filter (\<lambda>c. c \<noteq> []) cs)"
  by (induction cs arbitrary: st) (simp_all add: scan_cell_seen)

lemma scan_column_nonNull: "nonNull (scan_column rows h) = length (nonempty_cells rows h)"
  by (simp add: scan_column_def foldl_nonNull stats0_def nonempty_cells_def)

lemma scan_column_seen: "seen (scan_column rows h) = set_of_list (nonempty_cells rows h)"
  by (simp add: scan_column_def foldl_seen stats0_def nonempty_cells_def set_of_list_def)

lemma length_set_of_list: "length (set_of_list xs) = card (set xs)"
  using distinct_card[OF set_of_list_distinct, of xs] by (simp add: set_of_list_set)

lemma profile_unique_iff:
  "ic_unique (profile_column rows h) \<longleftrightarrow>
     0 < length (nonempty_cells rows h)
     \<and> card (set (nonempty_cells rows h)) = length (nonempty_cells rows h)"
  by (simp add: profile_column_def Let_def scan_column_nonNull scan_column_seen length_set_of_list
        split: prod.splits)

section \<open>Counters of the column preview\<close>

lemma trim_Nil: "trim [] = []"
  by (simp add: trim_def)

lemma csv_step_nullCount:
  "c_nullCount (csv_step st v) = c_nullCount st + (if csv_text v = [] then 1 else 0)"
  by (auto simp: csv_step_def Let_def csv_text_def js_String_def trim_Nil)

lemma csv_step_hasNull:
  "c_hasNull (csv_step st v) \<longleftrightarrow> c_hasNull st \<or> csv_text v = []"
  by (auto simp: csv_step_def Let_def csv_text_def js_String_def trim_Nil)

lemma csv_step_seen:
  "c_seen (csv_step st v) = (if csv_text v = [] then c_seen st else set_add (csv_text v) (c_seen st))"
  by (auto simp: csv_step_def Let_def csv_text_def js_String_def trim_Nil)

lemma foldl_csv_nullCount:
  "c_nullCount (foldl csv_step st vs) = c_nullCount st + length (filter (\<lambda>c. c = []) (map csv_text vs))"
  by (induction vs arbitrary: st) (simp_all add: csv_step_nullCount)

lemma foldl_csv_hasNull:
  "c_hasNull (foldl csv_step st vs) \<longleftrightarrow> c_hasNull st \<or> [] \<in> set (map csv_text vs)"
  by (induction vs arbitrary: st) (auto simp: csv_step_hasNull)

lemma foldl_csv_seen:
  "c_seen (foldl csv_step st vs)
     = foldl (\<lambda>acc x. set_add x acc) (c_seen st) (filter (\<lambda>c. c \<noteq> []) (map csv_text vs))"
  by (induction vs arbitrary: st) (simp_all add: csv_step_seen)

lemma length_filter_split:
  "length xs - length (filter (\<lambda>c. c = []) xs) = length (filter (\<lambda>c. c \<noteq> []) xs)"
  using sum_length_filter_compl[of "\<lambda>c. c = []" xs] by simp

lemma no_empty_iff: "[] \<notin> set xs \<longleftrightarrow> length (filter (\<lambda>c. c \<noteq> []) xs) = length xs"
proof (induction xs)
  case Nil
  show ?case by simp
next
  case (Cons x xs)
  have le: "length (filter (\<lambda>c. c \<noteq> []) xs) \<noteq> Suc (length xs)"
    using length_filter_le[of "\<lambda>c. c \<noteq> []" xs] by linarith
  show ?case
  proof (cases "x = []")
    case True
    then show ?thesis using le by simp
  next
    case False
    then show ?thesis using Cons by simp
  qed
qed

lemma inferColumn_unique_iff:
  "col_unique (inferColumn rows h) \<longleftrightarrow>
     length (csv_nonempty rows h) = length (csv_cells rows h)
     \<and> 0 < length (csv_nonempty rows h)
     \<and> card (set (csv_nonempty rows h)) = length (csv_nonempty rows h)"
proof -
  define vs where "vs = filter (\<lambda>v. v \<noteq> JUndefined) (map (\<lambda>r. property r h) rows)"
  define cs where "cs = map csv_text vs"
  define st where "st = foldl csv_step csv0 vs"
  have len: "length cs = length vs"
    by (simp add: cs_def)
  have "c_nullCount st = length (filter (\<lambda>c. c = []) cs)"
    by (simp only: st_def cs_def foldl_csv_nullCount csv0_def csv_stats.select_convs add_0)
  then have n: "length vs - c_nullCount st = length (filter (\<lambda>c. c \<noteq> []) cs)"
    using length_filter_split[of cs] len by simp
  have "c_hasNull st \<longleftrightarrow> [] \<in> set cs"
    by (simp only: st_def cs_def foldl_csv_hasNull csv0_def csv_stats.select_convs simp_thms)
  then have h: "c_hasNull st \<longleftrightarrow> length (filter (\<lambda>c. c \<noteq> []) cs) \<noteq> length cs"
    using no_empty_iff[of cs] by blast
  have "c_seen st = set_of_list (filter (\<lambda>c. c \<noteq> []) cs)"
    by (simp only: st_def cs_def foldl_csv_seen csv0_def csv_stats.select_convs set_of_list_def)
  then have s: "length (c_seen st) = card (set (filter (\<lambda>c. c \<noteq> []) cs))"
    by (simp only: length_set_of_list)
  have "col_unique (inferColumn rows h) \<longleftrightarrow>
          \<not> c_hasNull st \<and> length (c_seen st) = length vs - c_nullCount st
          \<and> length vs - c_nullCount st > 0"
    by (simp only: inferColumn_def Let_def vs_def st_def InferredColumn.select_convs)
  also have "\<dots> \<longleftrightarrow> length (filter (\<lambda>c. c \<noteq> []) cs) = length cs
                 \<and> 0 < length (filter (\<lambda>c. c \<noteq> []) cs)
                 \<and> card (set (filter (\<lambda>c. c \<noteq> []) cs)) = length (filter (\<lambda>c. c \<noteq> []) cs)"
    unfolding n h s by blast
  finally show ?thesis
    by (simp only: csv_nonempty_def csv_cells_def cs_def vs_def)
qed

lemma inferColumn_nullRate:
  "col_nullRate (inferColumn rows h) =
     of_nat (length (filter (\<lambda>c. c = []) (csv_cells rows h)))
       / of_nat (if length (csv_cells rows h) = 0 then 1 else length (csv_cells rows h))"
proof -
  define vs where "vs = filter (\<lambda>v. v \<noteq> JUndefined) (map (\<lambda>r. property r h) rows)"
  have "col_nullRate (inferColumn rows h) =
          of_nat (c_nullCount (foldl csv_step csv0 vs)) / of_nat (if length vs = 0 then 1 else length vs)"
    by (simp only: inferColumn_def Let_def vs_def InferredColumn.select_convs)
  also have "c_nullCount (foldl csv_step csv0 vs) = length (filter (\<lambda>c. c = []) (map csv_text vs))"
    by (simp only: foldl_csv_nullCount csv0_def csv_stats.select_convs add_0)
  finally show ?thesis
    by (simp only: csv_cells_def vs_def length_map)
qed

lemmas csv_eval = inferColumns_def inferColumn_def csv_step_def csv0_def property_def js_String_def
  isInt_def isDecimal_def isDateLike_str_def set_add_def

section \<open>Uniqueness in the two constraint profilers\<close>

text \<open>
  Claim C2, counterexample.  On Scenario A the column preview \<open>inferColumns\<close> reports
  the null rate \<open>1/4\<close> but \<open>unique = false\<close>, although the three non-empty values
  are pairwise distinct: its test for uniqueness starts with \<open>!hasNull\<close>.
\<close>

theorem inferColumns_scenario_A_not_unique:
  "inferColumns scenario_A_objects [''v'']
     = [\<lparr>col_name = ''v'', col_type = T_int, col_nullRate = 1 / 4, col_unique = False\<rparr>]
   \<and> csv_nonempty scenario_A_objects ''v'' = [''1'', ''2'', ''3'']
   \<and> 0 < length (csv_nonempty scenario_A_objects ''v'')
   \<and> card (set (csv_nonempty scenario_A_objects ''v'')) = length (csv_nonempty scenario_A_objects ''v'')"
proof -
  have a: "inferColumns scenario_A_objects [''v'']
     = [\<lparr>col_name = ''v'', col_type = T_int, col_nullRate = 1 / 4, col_unique = False\<rparr>]"
    by (simp add: csv_eval str_eval rx_eval scenario_A_objects_def scenario_A_def Let_def)
  have b: "csv_nonempty scenario_A_objects ''v'' = [''1'', ''2'', ''3'']"
    by (simp add: csv_nonempty_def csv_cells_def csv_text_def property_def js_String_def str_eval
          scenario_A_objects_def scenario_A_def)
  show ?thesis unfolding b using a by simp
qed

text \<open>
  Claim C2, as amended.  The schema inference of the import (\<open>inferSchema\<close>) reports
  \<open>unique\<close> exactly when the column has a non-empty value and as many distinct trimmed
  non-empty values as non-empty values; there empty values do not matter.  The column
  preview (\<open>inferColumns\<close>) reports \<open>unique\<close> exactly when, in addition, no value of
  the column is empty; its null rate is the number of empty values over the number of
  values (over 1 for a column without values).  On Scenario A the import profile is
  unique and not \<open>notNull\<close>, the preview has null rate \<open>1/4\<close> and is not unique.
\<close>

theorem unique_in_both_profilers:
  "(ic_unique (profile_column rows h) \<longleftrightarrow>
      0 < length (nonempty_cells rows h)
      \<and> card (set (nonempty_cells rows h)) = length (nonempty_cells rows h))
   \<and> (col_unique (inferColumn objs h) \<longleftrightarrow>
        length (csv_nonempty objs h) = length (csv_cells objs h)
        \<and> 0 < length (csv_nonempty objs h)
        \<and> card (set (csv_nonempty objs h)) = length (csv_nonempty objs h))
   \<and> col_nullRate (inferColumn objs h) =
        of_nat (length (filter (\<lambda>c. c = []) (csv_cells objs h)))
          / of_nat (if length (csv_cells objs h) = 0 then 1 else length (csv_cells objs h))
   \<and> ic_unique (profile_column scenario_A_rows ''v'')
   \<and> \<not> ic_notNull (profile_column scenario_A_rows ''v'')
   \<and> col_nullRate (inferColumn scenario_A_objects ''v'') = 1 / 4
   \<and> \<not> col_unique (inferColumn scenario_A_objects ''v'')"
proof -
  have a: "ic_unique (profile_column scenario_A_rows ''v'')
           \<and> \<not> ic_notNull (profile_column scenario_A_rows ''v'')"
    by (simp add: schema_eval str_eval rx_eval scenario_A_rows_def scenario_A_def Let_def)
  have b: "inferColumn scenario_A_objects ''v''
     = \<lparr>col_name = ''v'', col_type = T_int, col_nullRate = 1 / 4, col_unique = False\<rparr>"
    by (simp add: csv_eval str_eval rx_eval scenario_A_objects_def scenario_A_def Let_def)
  show ?thesis
    using a profile_unique_iff[of rows h] inferColumn_unique_iff[of objs h]
      inferColumn_nullRate[of objs h]
    unfolding b by simp
qed

section \<open>The primary key chosen by the schema inference\<close>













section \<open>Integer literals and their round trip\<close>

lemma filter_conj_all:
  "length (filter (\<lambda>x. P x \<and> Q x) xs) = length (filter P xs) \<Longrightarrow> x \<in> set xs \<Longrightarrow> P x \<Longrightarrow> Q x"
proof (induction xs)
  case Nil
  then show ?case by simp
next
  case (Cons y ys)
  have le: "length (filter (\<lambda>x. P x \<and> Q x) ys) \<le> length (filter P ys)"
    by (induction ys) auto
  show ?case
  proof (cases "P y \<and> \<not> Q y")
    case True
    with Cons.prems(1) le show ?thesis by simp
  next
    case False
    with Cons show ?thesis by (auto split: if_splits)
  qed
qed

lemma filter_all_conj:
  "list_all Q (filter P xs) \<Longrightarrow> length (filter (\<lambda>x. P x \<and> Q x) xs) = length (filter P xs)"
  by (induction xs) (auto split: if_splits)

lemma decide_INTEGER_plain:
  "decide_affinity st = (INTEGER, False, d) \<Longrightarrow> asInt st = nonNull st"
  by (auto simp: decide_affinity_def split: if_splits)

lemma decide_all_int:
  "0 < nonNull st \<Longrightarrow> asInt st = nonNull st \<Longrightarrow> fst (decide_affinity st) = INTEGER"
  by (simp add: decide_affinity_def)

text \<open>
  The import profile does what Claim C3 asks of the affinity inferer: a column with a
  non-empty value, all of whose non-empty values match the integer pattern, gets the
  affinity INTEGER, whether or not some of the values are boolean tokens.
\<close>

lemma profile_integer_affinity:
  assumes "nonempty_cells rows h \<noteq> []" and "list_all (matches intRe) (nonempty_cells rows h)"
  shows "ic_affinity (profile_column rows h) = INTEGER"
proof -
  define cs where "cs = map (\<lambda>r. cell r h) rows"
  have n: "nonNull (scan_column rows h) = length (filter (\<lambda>c. c \<noteq> []) cs)"
    by (simp add: scan_column_def foldl_nonNull stats0_def cs_def)
  have i: "asInt (scan_column rows h) = length (filter (\<lambda>c. c \<noteq> [] \<and> matches intRe c) cs)"
    by (simp add: scan_column_def foldl_asInt stats0_def cs_def)
  have "list_all (matches intRe) (filter (\<lambda>c. c \<noteq> []) cs)"
    using assms(2) by (simp add: nonempty_cells_def cs_def)
  then have "asInt (scan_column rows h) = nonNull (scan_column rows h)"
    unfolding n i by (rule filter_all_conj)
  moreover have "0 < nonNull (scan_column rows h)"
    using assms(1) unfolding n nonempty_cells_def cs_def by (simp only: length_greater_0_conv simp_thms)
  ultimately have "fst (decide_affinity (scan_column rows h)) = INTEGER"
    by (simp add: decide_all_int)
  then show ?thesis
    by (auto simp: profile_column_def Let_def split: prod.splits)
qed

lemma profile_integer_cells:
  assumes "ic_affinity (profile_column rows h) = INTEGER" and "\<not> ic_isBool (profile_column rows h)"
    and "r \<in> set rows" and "cell r h \<noteq> []"
  shows "matches intRe (cell r h)"
proof -
  define cs where "cs = map (\<lambda>r. cell r h) rows"
  obtain a b d where dec: "decide_affinity (scan_column rows h) = (a, b, d)"
    by (cases "decide_affinity (scan_column rows h)") auto
  with assms(1,2) have "a = INTEGER" "b = False"
    by (simp_all add: profile_column_def Let_def)
  with dec have "asInt (scan_column rows h) = nonNull (scan_column rows h)"
    using decide_INTEGER_plain by blast
  then have "length (filter (\<lambda>c. c \<noteq> [] \<and> matches intRe c) cs) = length (filter (\<lambda>c. c \<noteq> []) cs)"
    by (simp add: scan_column_def foldl_asInt foldl_nonNull stats0_def cs_def)
  moreover have "cell r h \<in> set cs"
    using assms(3) by (simp add: cs_def)
  ultimately show ?thesis
    using assms(4) filter_conj_all[of "\<lambda>c. c \<noteq> []" "matches intRe" cs "cell r h"] by blast
qed

lemma intRe_nonempty: "matches intRe s \<Longrightarrow> s \<noteq> []"
  by (auto simp: rx_eval)

lemma toSqlLiteral_integer:
  assumes "ic_affinity c = INTEGER" and "\<not> ic_isBool c" and "matches intRe (trim raw)"
  shows "toSqlLiteral (Some raw) c = trim raw"
  using assms intRe_nonempty[OF assms(3)] by (simp add: toSqlLiteral_def Let_def)

lemma toSqlLiteral_cell:
  assumes "ic_affinity c = INTEGER" and "\<not> ic_isBool c" and "matches intRe (cell r h)"
  shows "toSqlLiteral (r h) c = cell r h"
  using assms intRe_nonempty[OF assms(3)] by (simp add: toSqlLiteral_def Let_def cell_def)

lemma bitlen_2_53: "bitlen 9007199254740992 = 54"
  by (simp add: bitlen.simps[of "numeral n" for n] bitlen.simps[of 0] bitlen.simps[of 1]
        bitlen.simps[of "Suc 0"])

lemma round53_exact: "m \<le> 2 ^ 53 \<Longrightarrow> round53 m = m"
proof (cases "m < 2 ^ 53")
  case True
  then show ?thesis by (simp add: round53_def)
next
  case False
  assume "m \<le> 2 ^ 53"
  with False have "m = 9007199254740992" by simp
  then show ?thesis by (simp add: round53_def Let_def bitlen_2_53)
qed

lemma number_of_int_exact: "\<bar>i\<bar> \<le> 2 ^ 53 \<Longrightarrow> number_of_int i = Integral i"
proof -
  assume a: "\<bar>i\<bar> \<le> 2 ^ 53"
  then have le: "nat \<bar>i\<bar> \<le> 2 ^ 53" by (simp add: nat_le_iff)
  then have r: "round53 (nat \<bar>i\<bar>) = nat \<bar>i\<bar>" by (rule round53_exact)
  have "(2::nat) ^ 53 < 2 ^ 1024" by simp
  with le have "\<not> nat \<bar>i\<bar> \<ge> 2 ^ 1024" by linarith
  then show ?thesis unfolding number_of_int_def Let_def r by auto
qed

lemma coerce_integer:
  assumes "matches intRe (trim raw)" and "\<bar>int_value (trim raw)\<bar> \<le> 2 ^ 53"
  shows "coerceByAffinity (JStr raw) INTEGER False = SqlNumber (Integral (int_value (trim raw)))"
  using assms intRe_nonempty[OF assms(1)]
  by (simp add: coerceByAffinity_def Let_def js_Number_def number_of_int_exact)

lemma bool_literal:
  assumes "ic_isBool c" and "trim raw = ''0'' \<or> trim raw = ''1''"
  shows "toSqlLiteral (Some raw) c = trim raw"
  using assms
  by (auto simp: toSqlLiteral_def Let_def boolTrue_def boolFalse_def toLowerCase_def lower_char_def)

lemma bool_number:
  assumes "trim raw = ''0'' \<or> trim raw = ''1''"
  shows "coerceByAffinity (JStr raw) aff True = SqlNumber (Integral (int_value (trim raw)))"
  using assms
  by (auto simp: coerceByAffinity_def Let_def boolTrue_def boolFalse_def toLowerCase_def lower_char_def
        int_value_def nat_value_def digit_val_def)

lemmas number_eval = int_value_def nat_value_def digit_val_def js_Number_def number_of_int_def
  round53_def bitlen.simps[of "numeral n" for n] bitlen.simps[of 0] bitlen.simps[of 1]
  bitlen.simps[of "Suc 0"]

text \<open>
  Claim C7, counterexample.  The flag column holds nineteen boolean tokens and the
  integer 5, so its profile has the affinity INTEGER with \<open>isBool\<close> set; the value 5
  of this column is coerced to \<open>NULL\<close> by both coercers, which is not the integer 5.
  Without the flag, \<open>coerceByAffinity\<close> turns the literal of \<open>2^53 + 1\<close> into the
  number \<open>2^53\<close>.
\<close>

theorem integer_roundtrip_counterexample:
  "ic_affinity (profile_column flag_rows ''f'') = INTEGER
   \<and> cell (last flag_rows) ''f'' = ''5''
   \<and> parse_int ''5'' = Some 5
   \<and> toSqlLiteral (last flag_rows ''f'') (profile_column flag_rows ''f'') = ''NULL''
   \<and> parse_int ''NULL'' = None
   \<and> coerceByAffinity (JStr ''5'') INTEGER (ic_isBool (profile_column flag_rows ''f'')) = SqlNull
   \<and> parse_int ''9007199254740993'' = Some 9007199254740993
   \<and> coerceByAffinity (JStr ''9007199254740993'') INTEGER False = SqlNumber (Integral 9007199254740992)"
proof -
  have p: "profile_column flag_rows ''f'' = flag_profile"
    by (simp add: schema_eval str_eval rx_eval flag_rows_def flag_profile_def Let_def)
  have l: "last flag_rows = [''f'' \<mapsto> ''5'']"
    by (simp add: flag_rows_def)
  have a: "parse_int ''5'' = Some 5 \<and> parse_int ''NULL'' = None
           \<and> parse_int ''9007199254740993'' = Some 9007199254740993"
    by (simp add: parse_int_def number_eval rx_eval)
  have b: "toSqlLiteral (Some ''5'') flag_profile = ''NULL''
           \<and> coerceByAffinity (JStr ''5'') INTEGER True = SqlNull"
    by (simp add: toSqlLiteral_def coerceByAffinity_def flag_profile_def boolTrue_def boolFalse_def
          str_eval Let_def)
  have c: "coerceByAffinity (JStr ''9007199254740993'') INTEGER False
             = SqlNumber (Integral 9007199254740992)"
    by (simp add: coerceByAffinity_def number_eval str_eval rx_eval Let_def)
  show ?thesis
    unfolding p l using a b c by (simp add: flag_profile_def cell_def str_eval)
qed

text \<open>
  Claim C7, as amended.  In an import profile with affinity INTEGER that is not
  flagged as boolean every non-empty value of the column matches the integer
  pattern, and \<open>toSqlLiteral\<close> returns the trimmed value itself, which reads back as
  the integer value of the value; the same holds for any trimmed text matching the
  integer pattern under such a profile.  \<open>coerceByAffinity\<close> on affinity INTEGER
  without the flag returns the number of that integer value as long as its magnitude
  is at most \<open>2^53\<close>.  Under a profile flagged as boolean the values \<open>0\<close> and \<open>1\<close>
  keep their integer value in both coercers.
\<close>

theorem integer_roundtrip:
  "(r \<in> set rows \<and> ic_affinity (profile_column rows h) = INTEGER
      \<and> \<not> ic_isBool (profile_column rows h) \<and> cell r h \<noteq> []
      \<longrightarrow> matches intRe (cell r h)
          \<and> parse_int (toSqlLiteral (r h) (profile_column rows h)) = Some (int_value (cell r h)))
   \<and> (ic_affinity c = INTEGER \<and> \<not> ic_isBool c \<and> matches intRe (trim raw)
      \<longrightarrow> parse_int (toSqlLiteral (Some raw) c) = Some (int_value (trim raw)))
   \<and> (matches intRe (trim raw) \<and> \<bar>int_value (trim raw)\<bar> \<le> 2 ^ 53
      \<longrightarrow> coerceByAffinity (JStr raw) INTEGER False = SqlNumber (Integral (int_value (trim raw))))
   \<and> (ic_isBool b \<and> (trim flag = ''0'' \<or> trim flag = ''1'')
      \<longrightarrow> parse_int (toSqlLiteral (Some flag) b) = Some (int_value (trim flag))
          \<and> coerceByAffinity (JStr flag) aff True = SqlNumber (Integral (int_value (trim flag))))"
proof (intro conjI impI)
  assume a: "r \<in> set rows \<and> ic_affinity (profile_column rows h) = INTEGER
      \<and> \<not> ic_isBool (profile_column rows h) \<and> cell r h \<noteq> []"
  then show m: "matches intRe (cell r h)"
    using profile_integer_cells[of rows h r] by blast
  show "parse_int (toSqlLiteral (r h) (profile_column rows h)) = Some (int_value (cell r h))"
    using a m toSqlLiteral_cell[of "profile_column rows h" r h] by (simp add: parse_int_def)
next
  assume "ic_affinity c = INTEGER \<and> \<not> ic_isBool c \<and> matches intRe (trim raw)"
  then show "parse_int (toSqlLiteral (Some raw) c) = Some (int_value (trim raw))"
    using toSqlLiteral_integer[of c raw] by (simp add: parse_int_def)
next
  assume "matches intRe (trim raw) \<and> \<bar>int_value (trim raw)\<bar> \<le> 2 ^ 53"
  then show "coerceByAffinity (JStr raw) INTEGER False = SqlNumber (Integral (int_value (trim raw)))"
    using coerce_integer[of raw] by blast
next
  assume a: "ic_isBool b \<and> (trim flag = ''0'' \<or> trim flag = ''1'')"
  then have "matches intRe (trim flag)"
    by (auto simp: rx_eval)
  then show "parse_int (toSqlLiteral (Some flag) b) = Some (int_value (trim flag))"
    using a bool_literal[of b flag] by (simp add: parse_int_def)
  show "coerceByAffinity (JStr flag) aff True = SqlNumber (Integral (int_value (trim flag)))"
    using a bool_number[of flag aff] by blast
qed

theorem integer_roundtrip_witness:
  "hd two_keys_rows \<in> set two_keys_rows
   \<and> ic_affinity (profile_column two_keys_rows ''id'') = INTEGER
   \<and> \<not> ic_isBool (profile_column two_keys_rows ''id'')
   \<and> cell (hd two_keys_rows) ''id'' \<noteq> []
   \<and> parse_int (toSqlLiteral (hd two_keys_rows ''id'') (profile_column two_keys_rows ''id'')) = Some 1
   \<and> ic_affinity integer_profile = INTEGER \<and> \<not> ic_isBool integer_profile
   \<and> matches intRe (trim '' -042 '')
   \<and> parse_int (toSqlLiteral (Some '' -042 '') integer_profile) = Some (- 42)
   \<and> \<bar>int_value (trim '' -042 '')\<bar> \<le> 2 ^ 53
   \<and> coerceByAffinity (JStr '' -042 '') INTEGER False = SqlNumber (Integral (- 42))
   \<and> ic_isBool flag_profile \<and> (trim ''1 '' = ''0'' \<or> trim ''1 '' = ''1'')
   \<and> parse_int (toSqlLiteral (Some ''1 '') flag_profile) = Some 1
   \<and> coerceByAffinity (JStr ''1 '') INTEGER True = SqlNumber (Integral 1)"
proof -
  have p: "ic_affinity (profile_column two_keys_rows ''id'') = INTEGER
           \<and> \<not> ic_isBool (profile_column two_keys_rows ''id'')"
    by (simp add: schema_eval str_eval rx_eval two_keys_rows_def Let_def)
  have r: "hd two_keys_rows \<in> set two_keys_rows \<and> cell (hd two_keys_rows) ''id'' = ''1''"
    by (simp add: two_keys_rows_def cell_def str_eval)
  have t: "trim '' -042 '' = ''-042'' \<and> trim ''1 '' = ''1''"
    by (simp add: str_eval)
  have v: "int_value ''-042'' = - 42 \<and> int_value ''1'' = 1 \<and> matches intRe ''-042''"
    by (simp add: number_eval rx_eval)
  have i: "ic_affinity integer_profile = INTEGER \<and> \<not> ic_isBool integer_profile
           \<and> ic_isBool flag_profile"
    by (simp add: integer_profile_def flag_profile_def)
  show ?thesis
    using integer_roundtrip[of "hd two_keys_rows" two_keys_rows "''id''" integer_profile "'' -042 ''"
            flag_profile "''1 ''" INTEGER] p r t v i
    by simp
qed

section \<open>The loops of the edge inference\<close>


lemma scan_parents_shape:
  "scan_parents st child cname ps edges = Inr out \<Longrightarrow>
     probes_ok st child cname ps
     \<and> (out = edges
        \<or> (\<exists>p m t. out = edges @ [\<lparr>e_source = child, e_target = p, e_col = cname,
                                     e_coverage = of_int m / of_int t, e_matched = m, e_total = t\<rparr>]
              \<and> p \<in> set ps
              \<and> list_all (rejected st child cname) (takeWhile (\<lambda>q. q \<noteq> p) ps)
              \<and> probe st child cname p = Inr (m, t) \<and> accepted m t))"
proof (induction ps)
  case Nil
  then show ?case by simp
next
  case (Cons p0 ps)
  from Cons.prems obtain m0 t0 where pr: "probe st child cname p0 = Inr (m0, t0)"
    by (auto split: sum.splits)
  show ?case
  proof (cases "accepted m0 t0")
    case True
    with Cons.prems pr show ?thesis by auto
  next
    case False
    with Cons.prems pr have rec: "scan_parents st child cname ps edges = Inr out" by simp
    from False pr have rej: "rejected st child cname p0" by (simp add: rejected_def)
    from Cons.IH[OF rec] have ok: "probes_ok st child cname ps" by blast
    from Cons.IH[OF rec] consider (same) "out = edges"
      | (new) p m t where "out = edges @ [\<lparr>e_source = child, e_target = p, e_col = cname,
                                     e_coverage = of_int m / of_int t, e_matched = m, e_total = t\<rparr>]"
          "p \<in> set ps" "list_all (rejected st child cname) (takeWhile (\<lambda>q. q \<noteq> p) ps)"
          "probe st child cname p = Inr (m, t)" "accepted m t"
      by blast
    then show ?thesis
    proof cases
      case same
      with pr ok show ?thesis by simp
    next
      case new
      from new(4,5) pr False have "p0 \<noteq> p" by auto
      with new rej pr ok show ?thesis by auto
    qed
  qed
qed


lemma scan_column_fk_shape:
  assumes "scan_column_fk st tables child cname edges = Inr out"
  shows "column_ok st tables child cname
     \<and> (out = edges \<or> (\<exists>e. out = edges @ [e] \<and> accepted_edge st tables e
                             \<and> e_source e = child \<and> e_col e = cname))"
proof (cases "match_id_suffix cname")
  case None
  with assms show ?thesis by (simp add: scan_column_fk_def column_ok_def)
next
  case (Some m1)
  show ?thesis
  proof (cases "is_id_ci cname \<or> base_name m1 = [] \<or> parents_of tables (base_name m1) = []")
    case True
    with assms Some show ?thesis
      by (auto simp: scan_column_fk_def column_ok_def Let_def split: if_splits)
  next
    case False
    with assms Some have sp: "scan_parents st child cname (parents_of tables (base_name m1)) edges = Inr out"
      by (simp add: scan_column_fk_def Let_def)
    from scan_parents_shape[OF sp] False Some show ?thesis
      by (auto simp: column_ok_def accepted_edge_def)
  qed
qed


lemma scan_columns_fk_shape:
  "scan_columns_fk st tables child cs edges = Inr out \<Longrightarrow>
     list_all (column_ok st tables child) cs
     \<and> (\<exists>new. out = edges @ new
           \<and> list_all (\<lambda>e. accepted_edge st tables e \<and> e_source e = child \<and> e_col e \<in> set cs) new
           \<and> (distinct cs \<longrightarrow> distinct (map e_col new)))"
proof (induction cs arbitrary: edges)
  case Nil
  then show ?case by simp
next
  case (Cons c cs)
  from Cons.prems obtain mid where one: "scan_column_fk st tables child c edges = Inr mid"
    and rest: "scan_columns_fk st tables child cs mid = Inr out"
    by (auto split: sum.splits)
  from scan_column_fk_shape[OF one] have ok: "column_ok st tables child c"
    and mid: "mid = edges \<or> (\<exists>e. mid = edges @ [e] \<and> accepted_edge st tables e
                             \<and> e_source e = child \<and> e_col e = c)"
    by blast+
  from Cons.IH[OF rest] obtain new where oks: "list_all (column_ok st tables child) cs"
    and out: "out = mid @ new"
    and new: "list_all (\<lambda>e. accepted_edge st tables e \<and> e_source e = child \<and> e_col e \<in> set cs) new"
    and dist: "distinct cs \<longrightarrow> distinct (map e_col new)"
    by blast
  from new have sub: "set (map e_col new) \<subseteq> set cs"
    by (auto simp: list_all_iff)
  from new have new': "list_all (\<lambda>e. accepted_edge st tables e \<and> e_source e = child \<and> e_col e \<in> set (c # cs)) new"
    by (auto simp: list_all_iff)
  from mid show ?case
  proof
    assume "mid = edges"
    with ok oks out new' dist show ?thesis by auto
  next
    assume "\<exists>e. mid = edges @ [e] \<and> accepted_edge st tables e \<and> e_source e = child \<and> e_col e = c"
    then obtain e where e: "mid = edges @ [e]" "accepted_edge st tables e" "e_source e = child" "e_col e = c"
      by blast
    have "out = edges @ (e # new)" using out e(1) by simp
    moreover have "list_all (\<lambda>e. accepted_edge st tables e \<and> e_source e = child \<and> e_col e \<in> set (c # cs)) (e # new)"
      using e new' by simp
    moreover have "distinct (c # cs) \<longrightarrow> distinct (map e_col (e # new))"
      using dist sub e(4) by auto
    moreover have "list_all (column_ok st tables child) (c # cs)"
      using ok oks by simp
    ultimately show ?thesis by blast
  qed
qed


lemma scan_tables_fk_shape:
  "scan_tables_fk st tables children edges = Inr out \<Longrightarrow>
     list_all (table_ok st tables) children
     \<and> (\<exists>new. out = edges @ new
           \<and> list_all (\<lambda>e. accepted_edge st tables e \<and> e_source e \<in> set children) new
           \<and> (distinct children \<and> columns_distinct st children \<longrightarrow> distinct (map edge_key new)))"
proof (induction children arbitrary: edges)
  case Nil
  then show ?case by simp
next
  case (Cons child rest)
  from Cons.prems obtain cols mid where ti: "q_table_info st child = Inr cols"
    and one: "scan_columns_fk st tables child (map ti_name cols) edges = Inr mid"
    and more: "scan_tables_fk st tables rest mid = Inr out"
    by (auto split: sum.splits)
  from scan_columns_fk_shape[OF one] obtain new1 where
    ok1: "list_all (column_ok st tables child) (map ti_name cols)"
    and mid: "mid = edges @ new1"
    and new1: "list_all (\<lambda>e. accepted_edge st tables e \<and> e_source e = child \<and> e_col e \<in> set (map ti_name cols)) new1"
    and d1: "distinct (map ti_name cols) \<longrightarrow> distinct (map e_col new1)"
    by blast
  from Cons.IH[OF more] obtain new2 where
    ok2: "list_all (table_ok st tables) rest"
    and out: "out = mid @ new2"
    and new2: "list_all (\<lambda>e. accepted_edge st tables e \<and> e_source e \<in> set rest) new2"
    and d2: "distinct rest \<and> columns_distinct st rest \<longrightarrow> distinct (map edge_key new2)"
    by blast
  have tok: "table_ok st tables child"
    using ti ok1 by (simp add: table_ok_def)
  have o: "out = edges @ (new1 @ new2)"
    using out mid by simp
  have a: "list_all (\<lambda>e. accepted_edge st tables e \<and> e_source e \<in> set (child # rest)) (new1 @ new2)"
    using new1 new2 by (auto simp: list_all_iff)
  have d: "distinct (child # rest) \<and> columns_distinct st (child # rest) \<longrightarrow> distinct (map edge_key (new1 @ new2))"
  proof
    assume h: "distinct (child # rest) \<and> columns_distinct st (child # rest)"
    then have "distinct (map ti_name cols)"
      using ti by (simp add: columns_distinct_def)
    with d1 have "distinct (map e_col new1)" by blast
    moreover have "\<forall>e\<in>set new1. e_source e = child"
      using new1 by (auto simp: list_all_iff)
    ultimately have k1: "distinct (map edge_key new1)"
      by (auto simp: distinct_map edge_key_def inj_on_def)
    from h d2 have k2: "distinct (map edge_key new2)"
      by (simp add: columns_distinct_def)
    have "fst ` set (map edge_key new1) \<subseteq> {child}"
      using new1 by (auto simp: list_all_iff edge_key_def)
    moreover have "fst ` set (map edge_key new2) \<subseteq> set rest"
      using new2 by (auto simp: list_all_iff edge_key_def)
    moreover have "child \<notin> set rest" using h by simp
    ultimately have "set (map edge_key new1) \<inter> set (map edge_key new2) = {}"
      by fastforce
    with k1 k2 show "distinct (map edge_key (new1 @ new2))"
      by simp
  qed
  from tok ok2 o a d show ?case by auto
qed


lemma set_insert_edge: "set (insert_edge e xs) = insert e (set xs)"
  by (induction xs) auto

lemma distinct_insert_edge:
  "distinct (map f (insert_edge e xs)) \<longleftrightarrow> distinct (map f (e # xs))"
  by (induction xs) (auto simp: set_insert_edge)

lemma foldl_insert_edge_set:
  "set (foldl (\<lambda>acc e. insert_edge e acc) acc es) = set acc \<union> set es"
  by (induction es arbitrary: acc) (auto simp: set_insert_edge)

lemma foldl_insert_edge_distinct:
  "distinct (map f (foldl (\<lambda>acc e. insert_edge e acc) acc es)) \<longleftrightarrow> distinct (map f (acc @ es))"
proof (induction es arbitrary: acc)
  case Nil
  show ?case by simp
next
  case (Cons e es)
  have "distinct (map f (foldl (\<lambda>acc e. insert_edge e acc) (insert_edge e acc) es))
        \<longleftrightarrow> distinct (map f (insert_edge e acc @ es))"
    by (rule Cons.IH)
  also have "\<dots> \<longleftrightarrow> distinct (map f (e # acc @ es))"
    using distinct_insert_edge[of f e acc] by (auto simp: set_insert_edge)
  also have "\<dots> \<longleftrightarrow> distinct (map f (acc @ e # es))"
    by auto
  finally show ?case by simp
qed

lemma set_sort_edges: "set (sort_edges es) = set es"
  by (simp add: sort_edges_def foldl_insert_edge_set)

lemma distinct_sort_edges: "distinct (map f (sort_edges es)) \<longleftrightarrow> distinct (map f es)"
  by (simp add: sort_edges_def foldl_insert_edge_distinct)

lemma inferFkEdges_shape:
  assumes "inferFkEdges st tables = Inr out"
  shows "list_all (table_ok st tables) tables
     \<and> list_all (\<lambda>e. accepted_edge st tables e \<and> e_source e \<in> set tables) out
     \<and> (distinct tables \<and> columns_distinct st tables \<longrightarrow> distinct (map edge_key out))"
proof -
  from assms obtain edges where sc: "scan_tables_fk st tables tables [] = Inr edges"
    and out: "out = take 30 (sort_edges edges)"
    by (auto simp: inferFkEdges_def split: sum.splits)
  from scan_tables_fk_shape[OF sc] have ok: "list_all (table_ok st tables) tables"
    and acc: "list_all (\<lambda>e. accepted_edge st tables e \<and> e_source e \<in> set tables) edges"
    and d: "distinct tables \<and> columns_distinct st tables \<longrightarrow> distinct (map edge_key edges)"
    by auto
  have "set out \<subseteq> set edges"
    using out set_take_subset[of 30 "sort_edges edges"] by (simp add: set_sort_edges)
  with acc have a: "list_all (\<lambda>e. accepted_edge st tables e \<and> e_source e \<in> set tables) out"
    by (auto simp: list_all_iff)
  have "distinct (map edge_key edges) \<Longrightarrow> distinct (map edge_key out)"
  proof -
    assume "distinct (map edge_key edges)"
    then have "distinct (take 30 (map edge_key (sort_edges edges)))"
      by (simp add: distinct_sort_edges)
    then show ?thesis
      unfolding out by (simp only: take_map)
  qed
  with ok a d show ?thesis by blast
qed


section \<open>Counts of the coverage query\<close>

lemma sql_coverage_counts:
  assumes "sql_coverage eqv db child cname parent pkCol = Inr res"
  shows "0 \<le> first_matched res \<and> first_matched res \<le> first_total res"
  using assms
  by (auto simp: sql_coverage_def Let_def first_matched_def first_total_def split: option.splits)

lemma sql_probe_counts:
  assumes "q_coverage st = sql_coverage eqv db" and "probe st child cname p = Inr (m, t)"
  shows "0 \<le> m \<and> m \<le> t"
proof -
  from assms(2) obtain pcols res where "q_coverage st child cname p (pk_column pcols) = Inr res"
    and "m = first_matched res" and "t = first_total res"
    by (auto simp: probe_def split: sum.splits)
  with assms(1) sql_coverage_counts[of eqv db child cname p "pk_column pcols" res] show ?thesis
    by simp
qed

lemma accepted_edge_invariants:
  assumes "q_coverage st = sql_coverage eqv db" and "accepted_edge st tables e"
  shows "0 \<le> e_matched e \<and> e_matched e \<le> e_total e \<and> 0 < e_total e
         \<and> e_coverage e = of_int (e_matched e) / of_int (e_total e)
         \<and> 0 \<le> e_coverage e \<and> e_coverage e \<le> 1 \<and> MIN_COVERAGE \<le> e_coverage e"
proof -
  from assms(2) have pr: "probe st (e_source e) (e_col e) (e_target e) = Inr (e_matched e, e_total e)"
    and acc: "accepted (e_matched e) (e_total e)"
    and cov: "e_coverage e = of_int (e_matched e) / of_int (e_total e)"
    by (auto simp: accepted_edge_def split: option.splits)
  from sql_probe_counts[OF assms(1) pr] have m: "0 \<le> e_matched e" "e_matched e \<le> e_total e"
    by auto
  from acc have nz: "e_total e \<noteq> 0" and ge: "MIN_COVERAGE \<le> e_coverage e"
    unfolding cov by (auto simp: accepted_def)
  from m nz have pos: "0 < e_total e" by linarith
  have "0 \<le> e_coverage e"
    unfolding cov using m pos by simp
  moreover have "e_coverage e \<le> 1"
    unfolding cov using m pos by simp
  ultimately show ?thesis using m pos cov ge by blast
qed

section \<open>Names of candidate columns\<close>

lemma match_id_suffix_id: "match_id_suffix c = Some m \<Longrightarrow> id_suffix_ci c"
  by (auto simp: match_id_suffix_def id_suffix_ci_def Let_def split: if_splits)

lemma accepted_edge_name: "accepted_edge st tables e \<Longrightarrow> id_suffix_ci (e_col e) \<and> \<not> is_id_ci (e_col e)"
  by (auto simp: accepted_edge_def split: option.splits dest: match_id_suffix_id)

lemma category_no_id: "\<not> id_suffix_ci ''category''"
  by (simp add: id_suffix_ci_def is_id_ci_def)

lemma match_snake_id_suffix:
  "match_snake_id lc = Some m \<Longrightarrow> endsWith lc ''_id'' \<and> 4 \<le> length lc"
  by (auto simp: match_snake_id_def endsWith_def dropLast_def split: if_splits)

lemma infer_column_name:
  assumes "infer_column os metas t cname = Some f"
  shows "fromColumn f = cname \<and> fromTable f = t \<and> endsWith (toLowerCase cname) ''_id''
         \<and> 4 \<le> length cname"
proof -
  from assms obtain m where m: "match_snake_id (toLowerCase cname) = Some m"
    by (auto simp: infer_column_def Let_def split: if_splits option.splits)
  from assms have "fromColumn f = cname \<and> fromTable f = t"
    by (auto simp: infer_column_def Let_def split: if_splits option.splits prod.splits)
  with match_snake_id_suffix[OF m] show ?thesis
    by (simp add: toLowerCase_def)
qed

lemma inferForeignKeys_total:
  "inferForeignKeys metas opts =
     Inr (concat (map (\<lambda>t. List.map_filter (\<lambda>c. infer_column (merge_options opts) metas (tm_name t) (cm_name c))
                                 (tm_columns t)) metas))"
  by (simp add: inferForeignKeys_def wrap_error_def Let_def)

lemma inferForeignKeys_member:
  assumes "inferForeignKeys metas opts = Inr fks" and "f \<in> set fks"
  shows "\<exists>t c. t \<in> set metas \<and> c \<in> set (tm_columns t)
               \<and> infer_column (merge_options opts) metas (tm_name t) (cm_name c) = Some f"
proof -
  from assms obtain t where t: "t \<in> set metas"
    and f: "f \<in> set (List.map_filter (\<lambda>c. infer_column (merge_options opts) metas (tm_name t) (cm_name c))
                       (tm_columns t))"
    unfolding inferForeignKeys_total by auto
  from f obtain c where "c \<in> set (tm_columns t)"
    and "infer_column (merge_options opts) metas (tm_name t) (cm_name c) = Some f"
    by (auto simp: List.map_filter_def)
  with t show ?thesis by blast
qed

lemma category_no_snake: "\<not> endsWith (toLowerCase ''category'') ''_id''"
  by (simp add: str_eval)

lemma bare_id_no_snake: "endsWith lc ''_id'' \<Longrightarrow> lc \<noteq> ''id''"
  by (auto simp: endsWith_def)

section \<open>Errors while the metadata is read\<close>











section \<open>The examples evaluated\<close>

lemmas fk_eval = inferFkEdges_def scan_column_fk_def match_id_suffix_def is_id_ci_def base_name_def
  variants_def singularize_def lowerToOrig_def parents_of_def pk_column_def first_matched_def
  first_total_def MIN_COVERAGE_def sort_edges_def precedes_def set_of_list_def set_add_def
  List.map_filter_def probe_def accepted_def

lemmas sql_eval = sql_store_def sql_table_info_def sql_coverage_def left_join_def resolve_column_def
  ascii_lower_def char_of_def bit_Suc_0_iff table_column_def id_table_def

lemmas meta_eval = loadForeignKeys_def getTablesMeta_def getUniqueColumns_def wrap_error_def
  add_pk_columns_def column_meta_def inferForeignKeys_def infer_column_def merge_options_def
  reload_options_def match_snake_id_def key_columns_def uniqueMap_def best_step_def
  set_of_list_def set_add_def List.map_filter_def defaultInferOptions_def

lemma shop_edges: "inferFkEdges shop_store shop_tables = Inr [product_edge, user_edge]"
  by (simp add: fk_eval sql_eval str_eval shop_store_def shop_db_def shop_tables_def
        product_edge_def user_edge_def Let_def)

lemma shop_users_probe:
  "probe shop_store ''orders'' ''user_id'' ''users'' = Inr (5, 5)
   \<and> parents_of shop_tables (base_name ''user'') = [''user'', ''users'']"
  by (simp add: fk_eval sql_eval str_eval shop_store_def shop_db_def shop_tables_def Let_def)

lemma shop_columns: "distinct shop_tables \<and> columns_distinct shop_store shop_tables"
  by (simp add: columns_distinct_def sql_eval shop_store_def shop_db_def shop_tables_def)

lemma roles_edges: "inferFkEdges roles_store [''roles'', ''users''] = Inr [roles_edge]"
  by (simp add: fk_eval sql_eval str_eval roles_store_def roles_db_def roles_edge_def Let_def)

lemma items_edges: "inferFkEdges items_store [''items'', ''vals''] = Inr [valid_edge]"
  by (simp add: fk_eval sql_eval str_eval items_store_def items_db_def valid_edge_def Let_def)




lemma roles_normalize:
  "normalize ''roles'' = ''role''" "normalize ''users'' = ''user''" "normalize ''role'' = ''role''"
  by (simp_all add: normalize_def strip_ies_def strip_es_def strip_s_def str_eval)

lemma roles_dice: "diceSim ''role'' ''role'' = 1" "diceSim ''role'' ''user'' = 0"
  by (simp_all add: diceSim_def bigrams_def set_of_list_def set_add_def Let_def)

lemma roles_columns:
  "infer_column (merge_options (Some reload_options)) roles_metas ''roles'' ''id'' = None"
  "infer_column (merge_options (Some reload_options)) roles_metas ''users'' ''id'' = None"
  "infer_column (merge_options (Some reload_options)) roles_metas ''users'' ''role_id'' = Some roles_fk"
  by (simp_all add: meta_eval str_eval roles_metas_def roles_fk_def roles_normalize roles_dice Let_def)

lemma roles_fks: "inferForeignKeys roles_metas (Some reload_options) = Inr [roles_fk]"
  unfolding inferForeignKeys_total
  by (simp add: roles_metas_def List.map_filter_def roles_columns[unfolded roles_metas_def])


section \<open>The loops of the relation inference\<close>

lemma chosen_among_step:
  assumes inv: "chosen_among st rq table cname pre best"
    and m: "measure_parent st rq table cname p = Inr x"
  shows "chosen_among st rq table cname (pre @ [p])
           (case x of
              None \<Rightarrow> best
            | Some (pk, cov) \<Rightarrow>
                if cov \<ge> MIN_FK_COVERAGE \<and> (case best of None \<Rightarrow> True | Some b \<Rightarrow> cov > b_coverage b)
                then Some \<lparr>b_parent = p, b_pk = pk, b_coverage = cov\<rparr>
                else best)"
proof (cases x)
  case None
  then have c: "candidate_coverage st rq table cname p = None"
    using m by (simp add: candidate_coverage_def)
  show ?thesis
  proof (cases best)
    case N: None
    then show ?thesis
      using inv None c by (auto simp: chosen_among_def meets_threshold_def)
  next
    case (Some b)
    then show ?thesis
      using inv None c by (auto simp: chosen_among_def takeWhile_append1)
  qed
next
  case (Some pc)
  obtain pk c where pc: "pc = (pk, c)" by (cases pc)
  have cc: "candidate_coverage st rq table cname p = Some c"
    using m Some pc by (simp add: candidate_coverage_def)
  show ?thesis
  proof (cases best)
    case None
    show ?thesis
    proof (cases "c \<ge> MIN_FK_COVERAGE")
      case True
      have "\<And>q c'. q \<in> set pre \<Longrightarrow> candidate_coverage st rq table cname q = Some c' \<Longrightarrow> c' < c"
        using inv None True by (fastforce simp: chosen_among_def meets_threshold_def)
      then show ?thesis
        using Some pc None True m cc
        by (auto simp: chosen_among_def dest!: set_takeWhileD) force+
    next
      case False
      then show ?thesis
        using inv Some pc None cc by (auto simp: chosen_among_def meets_threshold_def)
    qed
  next
    case B: (Some b)
    show ?thesis
    proof (cases "c \<ge> MIN_FK_COVERAGE \<and> c > b_coverage b")
      case True
      have "\<And>q c'. q \<in> set pre \<Longrightarrow> candidate_coverage st rq table cname q = Some c' \<Longrightarrow> c' < c"
        using inv B True by (fastforce simp: chosen_among_def)
      then show ?thesis
        using Some pc B True m cc
        by (auto simp: chosen_among_def dest!: set_takeWhileD) force+
    next
      case False
      have "b_coverage b \<ge> MIN_FK_COVERAGE"
        using inv B by (simp add: chosen_among_def)
      with False have "c \<le> b_coverage b" by linarith
      then show ?thesis
        using inv Some pc B False cc by (auto simp: chosen_among_def takeWhile_append1)
    qed
  qed
qed

lemma scan_candidates_chosen:
  "scan_candidates st rq table cname cs best = Inr best'
   \<Longrightarrow> chosen_among st rq table cname pre best
   \<Longrightarrow> chosen_among st rq table cname (pre @ cs) best'"
proof (induction cs arbitrary: pre best)
  case Nil
  then show ?case by simp
next
  case (Cons p ps)
  from Cons.prems(1) obtain x where m: "measure_parent st rq table cname p = Inr x"
    by (auto split: sum.splits)
  define nb where "nb =
    (case x of
       None \<Rightarrow> best
     | Some (pk, cov) \<Rightarrow>
         if cov \<ge> MIN_FK_COVERAGE \<and> (case best of None \<Rightarrow> True | Some b \<Rightarrow> cov > b_coverage b)
         then Some \<lparr>b_parent = p, b_pk = pk, b_coverage = cov\<rparr>
         else best)"
  have r: "scan_candidates st rq table cname ps nb = Inr best'"
    using Cons.prems(1) m by (auto simp: nb_def split: option.splits)
  have "chosen_among st rq table cname (pre @ [p]) nb"
    unfolding nb_def by (rule chosen_among_step[OF Cons.prems(2) m])
  from Cons.IH[OF r this] show ?case by simp
qed

lemma scan_candidates_best:
  assumes "scan_candidates st rq table cname cs None = Inr best'"
  shows "chosen_among st rq table cname cs best'"
proof -
  have "chosen_among st rq table cname [] None"
    by (simp add: chosen_among_def)
  from scan_candidates_chosen[OF assms this] show ?thesis by simp
qed

lemma chosen_is_best:
  assumes "chosen_among st rq table cname (candidates table (relation_base cname) allTables) (Some b)"
  shows "best_relation st rq allTables (relation_of table cname b)"
  using assms
  by (auto simp: chosen_among_def best_relation_def relation_of_def Let_def list_all_iff
           split: option.splits)

lemma column_served_mono:
  "column_served st rq table allTables rels cname \<Longrightarrow> column_served st rq table allTables (r # rels) cname"
  by (auto simp: column_served_def)

lemma scan_fk_columns_shape:
  "scan_fk_columns st rq table allTables cols rels0 = Inr out
   \<Longrightarrow> \<exists>news. out = rels0 @ news
          \<and> list_all (best_relation st rq allTables) news
          \<and> list_all (\<lambda>r. rel_fromTable r = table) news
          \<and> subseq (map rel_fromColumn news) (map dc_name cols)
          \<and> list_all (\<lambda>c. column_served st rq table allTables news (dc_name c)) cols"
proof (induction cols arbitrary: rels0)
  case Nil
  then show ?case by simp
next
  case (Cons col cols)
  let ?cs = "candidates table (relation_base (dc_name col)) allTables"
  from Cons.prems obtain best where
    s: "scan_candidates st rq table (dc_name col) ?cs None = Inr best"
    by (auto split: sum.splits)
  have ch: "chosen_among st rq table (dc_name col) ?cs best"
    by (rule scan_candidates_best[OF s])
  show ?case
  proof (cases best)
    case None
    with Cons.prems s have "scan_fk_columns st rq table allTables cols rels0 = Inr out"
      by simp
    from Cons.IH[OF this] obtain news where n: "out = rels0 @ news"
      "list_all (best_relation st rq allTables) news"
      "list_all (\<lambda>r. rel_fromTable r = table) news"
      "subseq (map rel_fromColumn news) (map dc_name cols)"
      "list_all (\<lambda>c. column_served st rq table allTables news (dc_name c)) cols"
      by blast
    have "column_served st rq table allTables news (dc_name col)"
      using ch None by (auto simp: chosen_among_def column_served_def list_ex_iff)
    with n show ?thesis by auto
  next
    case (Some b)
    let ?r = "relation_of table (dc_name col) b"
    from Some Cons.prems s have "scan_fk_columns st rq table allTables cols (rels0 @ [?r]) = Inr out"
      by simp
    from Cons.IH[OF this] obtain news where n: "out = (rels0 @ [?r]) @ news"
      "list_all (best_relation st rq allTables) news"
      "list_all (\<lambda>r. rel_fromTable r = table) news"
      "subseq (map rel_fromColumn news) (map dc_name cols)"
      "list_all (\<lambda>c. column_served st rq table allTables news (dc_name c)) cols"
      by blast
    have b: "best_relation st rq allTables ?r"
      using ch Some by (simp add: chosen_is_best)
    have f: "rel_fromTable ?r = table" "rel_fromColumn ?r = dc_name col"
      by (simp_all add: relation_of_def)
    have served: "column_served st rq table allTables (?r # news) (dc_name col)"
      using f by (simp add: column_served_def)
    have rest: "list_all (\<lambda>c. column_served st rq table allTables (?r # news) (dc_name c)) cols"
      using n(5) by (simp add: list_all_iff column_served_mono)
    have "out = rels0 @ (?r # news)" using n(1) by simp
    moreover have "list_all (best_relation st rq allTables) (?r # news)" using b n(2) by simp
    moreover have "list_all (\<lambda>r. rel_fromTable r = table) (?r # news)" using f n(3) by simp
    moreover have "subseq (map rel_fromColumn (?r # news)) (map dc_name (col # cols))"
      using f n(4) by simp
    moreover have "list_all (\<lambda>c. column_served st rq table allTables (?r # news) (dc_name c)) (col # cols)"
      using served rest by simp
    ultimately show ?thesis by blast
  qed
qed

lemma inferRelations_shape:
  assumes "inferRelations st rq table columns allTables = Inr rels"
  shows "list_all (best_relation st rq allTables) rels
         \<and> list_all (\<lambda>r. rel_fromTable r = table) rels
         \<and> subseq (map rel_fromColumn rels) (map dc_name (fkCols columns))
         \<and> list_all (\<lambda>c. column_served st rq table allTables rels (dc_name c)) (fkCols columns)"
proof (cases "fkCols columns = []")
  case True
  with assms show ?thesis by (simp add: inferRelations_def)
next
  case False
  with assms have "scan_fk_columns st rq table allTables (fkCols columns) [] = Inr rels"
    by (simp add: inferRelations_def)
  from scan_fk_columns_shape[OF this] show ?thesis by simp
qed

lemmas rel_eval = inferRelations_def fkCols_def has_id_suffix_def strip_id_suffix_def relation_base_def
  candidates_def singular_def startsWith_def endsWith_def dropLast_def is_id_ci_def
  measure_parent_def getParentKey_def declared_key_def truthy_def cov_of_def MIN_FK_COVERAGE_def
  relation_of_def sql_queries_def

lemma shop_relations:
  "inferRelations shop_store shop_queries ''orders'' orders_columns shop_tables
     = Inr [users_relation, products_relation]"
  by (simp add: rel_eval sql_eval str_eval shop_store_def shop_queries_def shop_db_def shop_tables_def
        orders_columns_def users_relation_def products_relation_def Let_def)

lemma shop_coverages:
  "candidates ''orders'' (relation_base ''user_id'') shop_tables = [''user'', ''users'']
   \<and> candidate_coverage shop_store shop_queries ''orders'' ''user_id'' ''user'' = Some (4 / 5)
   \<and> candidate_coverage shop_store shop_queries ''orders'' ''user_id'' ''users'' = Some 1"
  by (simp add: rel_eval candidate_coverage_def sql_eval str_eval shop_store_def shop_queries_def
        shop_db_def shop_tables_def Let_def)

lemma shop_user_meets:
  "list_ex (meets_threshold shop_store shop_queries ''orders'' ''user_id'')
     (candidates ''orders'' (relation_base ''user_id'') shop_tables)"
  using shop_coverages by (simp add: meets_threshold_def MIN_FK_COVERAGE_def)

lemma nokey_relations:
  "inferRelations nokey_store nokey_queries ''orders'' [user_id_column] [''orders'', ''users'']
     = Inr [uid_relation]"
  by (simp add: rel_eval scanned_key_def first_index_column_def sql_count_def sql_distinct_def
        sql_eval str_eval nokey_store_def nokey_queries_def nokey_db_def user_id_column_def
        uid_relation_def Let_def)

section \<open>Which candidate parent is accepted\<close>

text \<open>
  Claim C1, counterexample.  In the shop the column \<open>orders.user_id\<close> has, for
  \<open>inferFkEdges\<close>, the candidate parents \<open>user\<close> and \<open>users\<close>, in this order.  The
  coverage of \<open>user\<close> is \<open>4/5\<close>, which meets the threshold, and the coverage of
  \<open>users\<close> is \<open>5/5\<close>; the relationship that \<open>inferFkEdges\<close> accepts is the one to
  \<open>user\<close>, not the one with the highest coverage.
\<close>

theorem first_candidate_not_best:
  "inferFkEdges shop_store shop_tables = Inr [product_edge, user_edge]
   \<and> e_target user_edge = ''user'' \<and> e_coverage user_edge = 4 / 5
   \<and> parents_of shop_tables (base_name ''user'') = [''user'', ''users'']
   \<and> probe shop_store ''orders'' ''user_id'' ''users'' = Inr (5, 5)
   \<and> accepted 5 5
   \<and> e_coverage user_edge < of_int 5 / of_int 5"
  using shop_edges shop_users_probe
  by (simp add: user_edge_def accepted_def MIN_COVERAGE_def)

text \<open>
  Claim C1, as amended.  In \<open>inferRelations\<close> the candidate parents of a column keep
  the order of the caller's table list and all of them are measured.  The relation
  returned for a column goes to the candidate with the highest coverage among those
  that meet the threshold of 0.8, and to the first of them in the table list when
  several have that coverage; a column with a candidate that meets the threshold has
  its relation in the result; and each column contributes at most one relation, the
  columns of the returned relations being a subsequence of the columns named like
  \<open>..._id\<close>.  In \<open>inferFkEdges\<close> the candidate parents are the tables named like the
  base of the column name, its singular, the base with \<open>s\<close> and the singular with
  \<open>s\<close>, tried in this order, and every returned relationship goes to the first of
  them whose coverage meets the threshold of 0.8 (with at least one row compared):
  every candidate tried before it was rejected, and later candidates are not looked
  at, whatever their coverage.  There, when the table list and the column lists of
  the tables have no duplicates, no two returned relationships start from the same
  column of the same table.
\<close>

theorem accepted_parent:
  "(inferRelations st rq table columns allTables = Inr rels \<longrightarrow>
      list_all (best_relation st rq allTables) rels
      \<and> list_all (\<lambda>r. rel_fromTable r = table) rels
      \<and> subseq (map rel_fromColumn rels) (map dc_name (fkCols columns))
      \<and> list_all (\<lambda>c. column_served st rq table allTables rels (dc_name c)) (fkCols columns))
   \<and> (inferFkEdges st' tables = Inr out \<longrightarrow>
        list_all (accepted_edge st' tables) out
        \<and> (distinct tables \<and> columns_distinct st' tables \<longrightarrow> distinct (map edge_key out)))"
proof (intro conjI impI)
  assume r: "inferRelations st rq table columns allTables = Inr rels"
  from inferRelations_shape[OF r]
  show "list_all (best_relation st rq allTables) rels"
    and "list_all (\<lambda>r. rel_fromTable r = table) rels"
    and "subseq (map rel_fromColumn rels) (map dc_name (fkCols columns))"
    and "list_all (\<lambda>c. column_served st rq table allTables rels (dc_name c)) (fkCols columns)"
    by blast+
next
  assume r: "inferFkEdges st' tables = Inr out"
  from inferFkEdges_shape[OF r]
  have "list_all (\<lambda>e. accepted_edge st' tables e \<and> e_source e \<in> set tables) out"
    by blast
  then show "list_all (accepted_edge st' tables) out"
    by (simp add: list_all_iff)
next
  assume r: "inferFkEdges st' tables = Inr out"
    and d: "distinct tables \<and> columns_distinct st' tables"
  from inferFkEdges_shape[OF r] d
  show "distinct (map edge_key out)"
    by blast
qed

theorem accepted_parent_witness:
  "inferRelations shop_store shop_queries ''orders'' orders_columns shop_tables
     = Inr [users_relation, products_relation]
   \<and> candidates ''orders'' (relation_base ''user_id'') shop_tables = [''user'', ''users'']
   \<and> candidate_coverage shop_store shop_queries ''orders'' ''user_id'' ''user'' = Some (4 / 5)
   \<and> candidate_coverage shop_store shop_queries ''orders'' ''user_id'' ''users'' = Some 1
   \<and> list_ex (meets_threshold shop_store shop_queries ''orders'' ''user_id'')
        (candidates ''orders'' (relation_base ''user_id'') shop_tables)
   \<and> list_all (best_relation shop_store shop_queries shop_tables) [users_relation, products_relation]
   \<and> subseq (map rel_fromColumn [users_relation, products_relation])
        (map dc_name (fkCols orders_columns))
   \<and> list_all (\<lambda>c. column_served shop_store shop_queries ''orders'' shop_tables
                      [users_relation, products_relation] (dc_name c)) (fkCols orders_columns)
   \<and> inferFkEdges shop_store shop_tables = Inr [product_edge, user_edge]
   \<and> distinct shop_tables \<and> columns_distinct shop_store shop_tables
   \<and> list_all (accepted_edge shop_store shop_tables) [product_edge, user_edge]
   \<and> distinct (map edge_key [product_edge, user_edge])"
  using accepted_parent[of shop_store shop_queries "''orders''" orders_columns shop_tables
          "[users_relation, products_relation]" shop_store shop_tables "[product_edge, user_edge]"]
    shop_relations shop_coverages shop_user_meets shop_edges shop_columns
  by blast

section \<open>Which columns are candidates\<close>

text \<open>
  Claim C5, counterexample.  The column \<open>items.valid\<close> holds flags, and the table
  \<open>vals\<close> has the keys 0, 1, 2.  The name \<open>valid\<close> ends neither with \<open>_id\<close> nor with
  \<open>Id\<close> or \<open>ID\<close>, yet \<open>inferFkEdges\<close> returns the relationship from \<open>items.valid\<close> to
  \<open>vals\<close>: its pattern asks for a final \<open>id\<close> in any letter case only.
\<close>

theorem valid_column_is_candidate:
  "inferFkEdges items_store [''items'', ''vals''] = Inr [valid_edge]
   \<and> e_col valid_edge = ''valid''
   \<and> \<not> claimed_fk_name ''valid''"
  using items_edges by (simp add: valid_edge_def claimed_fk_name_def str_eval)

text \<open>
  Claim C5, as amended.  \<open>inferFkEdges\<close> returns a relationship only for a column whose
  name ends with \<open>id\<close> in any letter case (an underscore before it is optional) and
  is not \<open>id\<close> itself in any letter case; it takes no option.  \<open>inferForeignKeys\<close>
  returns a foreign key only for a column whose lower-cased name ends with \<open>_id\<close>
  after at least one more character, so it accepts neither \<open>userId\<close> nor a bare
  \<open>id\<close>, whether or not \<open>excludeBareId\<close> is set.  Neither returns anything for a
  column named \<open>category\<close>.
\<close>

theorem fk_candidate_names:
  "(inferFkEdges st tables = Inr out \<and> e \<in> set out \<longrightarrow>
      id_suffix_ci (e_col e) \<and> \<not> is_id_ci (e_col e) \<and> e_col e \<noteq> ''category'')
   \<and> (inferForeignKeys metas opts = Inr fks \<and> f \<in> set fks \<longrightarrow>
        endsWith (toLowerCase (fromColumn f)) ''_id'' \<and> 4 \<le> length (fromColumn f)
        \<and> toLowerCase (fromColumn f) \<noteq> ''id'' \<and> fromColumn f \<noteq> ''category'')"
proof (intro conjI impI)
  assume a: "inferFkEdges st tables = Inr out \<and> e \<in> set out"
  with inferFkEdges_shape[of st tables out] have "accepted_edge st tables e"
    by (auto simp: list_all_iff)
  from accepted_edge_name[OF this] show "id_suffix_ci (e_col e)" and "\<not> is_id_ci (e_col e)"
    by blast+
  with category_no_id show "e_col e \<noteq> ''category''"
    by auto
next
  assume a: "inferForeignKeys metas opts = Inr fks \<and> f \<in> set fks"
  then have "inferForeignKeys metas opts = Inr fks" and "f \<in> set fks"
    by simp_all
  from inferForeignKeys_member[OF this] obtain tn cn where
    "infer_column (merge_options opts) metas tn cn = Some f"
    by auto
  from infer_column_name[OF this]
  show s: "endsWith (toLowerCase (fromColumn f)) ''_id''" and "4 \<le> length (fromColumn f)"
    by simp_all
  from bare_id_no_snake[OF s] show "toLowerCase (fromColumn f) \<noteq> ''id''" .
  from s category_no_snake show "fromColumn f \<noteq> ''category''"
    by auto
qed

theorem fk_candidate_names_witness:
  "inferFkEdges items_store [''items'', ''vals''] = Inr [valid_edge] \<and> valid_edge \<in> set [valid_edge]
   \<and> id_suffix_ci (e_col valid_edge) \<and> \<not> is_id_ci (e_col valid_edge)
   \<and> inferForeignKeys roles_metas (Some reload_options) = Inr [roles_fk] \<and> roles_fk \<in> set [roles_fk]
   \<and> endsWith (toLowerCase (fromColumn roles_fk)) ''_id'' \<and> 4 \<le> length (fromColumn roles_fk)"
  using fk_candidate_names[of items_store "[''items'', ''vals'']" "[valid_edge]" valid_edge
          roles_metas "Some reload_options" "[roles_fk]" roles_fk]
    items_edges roles_fks
  by simp

section \<open>Invariants of the returned relationships\<close>

text \<open>
  Claim C9.  When the coverage statement is answered as SQL answers it, every
  relationship that \<open>inferFkEdges\<close> returns has counts with
  \<open>0 \<le> matched \<le> total\<close> and \<open>total > 0\<close>, and its coverage is \<open>matched / total\<close>,
  a number between 0 and 1.  This holds for every database and for every comparison
  of values that the database may use.
\<close>

theorem edge_counts_invariant:
  assumes "q_coverage st = sql_coverage eqv db"
    and "inferFkEdges st tables = Inr out"
    and "e \<in> set out"
  shows "0 \<le> e_matched e \<and> e_matched e \<le> e_total e \<and> 0 < e_total e
         \<and> e_coverage e = of_int (e_matched e) / of_int (e_total e)
         \<and> 0 \<le> e_coverage e \<and> e_coverage e \<le> 1"
proof -
  from inferFkEdges_shape[OF assms(2)] assms(3) have "accepted_edge st tables e"
    by (auto simp: list_all_iff)
  from accepted_edge_invariants[OF assms(1) this] show ?thesis
    by blast
qed

theorem edge_counts_invariant_witness:
  "q_coverage roles_store = sql_coverage (=) roles_db
   \<and> inferFkEdges roles_store [''roles'', ''users''] = Inr [roles_edge]
   \<and> roles_edge \<in> set [roles_edge]
   \<and> e_matched roles_edge = 4 \<and> e_total roles_edge = 4 \<and> e_coverage roles_edge = 1
   \<and> 0 \<le> e_matched roles_edge \<and> e_matched roles_edge \<le> e_total roles_edge
   \<and> 0 < e_total roles_edge
   \<and> e_coverage roles_edge = of_int (e_matched roles_edge) / of_int (e_total roles_edge)
   \<and> 0 \<le> e_coverage roles_edge \<and> e_coverage roles_edge \<le> 1"
proof -
  have q: "q_coverage roles_store = sql_coverage (=) roles_db"
    by (simp add: roles_store_def sql_store_def)
  have m: "roles_edge \<in> set [roles_edge]"
    by simp
  have v: "e_matched roles_edge = 4 \<and> e_total roles_edge = 4 \<and> e_coverage roles_edge = 1"
    by (simp add: roles_edge_def)
  from edge_counts_invariant[OF q roles_edges m] q roles_edges m v show ?thesis
    by blast
qed

section \<open>How a failed statement ends the pass\<close>




end
